theory Spec2Isabelle
  imports Main "HOL-Library.Char_ord" "HOL-Library.List_Lexorder"
begin

section \<open>Python strings\<close>

text \<open>
  A Python \<open>str\<close> is modelled as a \<open>string\<close> whose characters are the code points
  below 256. The helpers below are the \<open>str\<close> methods the sources call.
\<close>

text \<open>\<open>str.isspace\<close> on one code point below 256.\<close>

definition is_space :: "char \<Rightarrow> bool" where
  "is_space c = (c \<in> set [CHR 0x09, CHR 0x0A, CHR 0x0B, CHR 0x0C, CHR 0x0D,
                           CHR 0x1C, CHR 0x1D, CHR 0x1E, CHR 0x1F, CHR '' '',
                           CHR 0x85, CHR 0xA0])"

text \<open>\<open>s.strip()\<close>: leading and trailing white space removed.\<close>

definition strip :: "string \<Rightarrow> string" where
  "strip s = rev (dropWhile is_space (rev (dropWhile is_space s)))"

definition upper_chars :: "char list" where
  "upper_chars = ''ABCDEFGHIJKLMNOPQRSTUVWXYZ'' @
     [CHR 0xC0, CHR 0xC1, CHR 0xC2, CHR 0xC3, CHR 0xC4, CHR 0xC5, CHR 0xC6, CHR 0xC7,
      CHR 0xC8, CHR 0xC9, CHR 0xCA, CHR 0xCB, CHR 0xCC, CHR 0xCD, CHR 0xCE, CHR 0xCF,
      CHR 0xD0, CHR 0xD1, CHR 0xD2, CHR 0xD3, CHR 0xD4, CHR 0xD5, CHR 0xD6,
      CHR 0xD8, CHR 0xD9, CHR 0xDA, CHR 0xDB, CHR 0xDC, CHR 0xDD, CHR 0xDE]"

definition lower_chars :: "char list" where
  "lower_chars = ''abcdefghijklmnopqrstuvwxyz'' @
     [CHR 0xE0, CHR 0xE1, CHR 0xE2, CHR 0xE3, CHR 0xE4, CHR 0xE5, CHR 0xE6, CHR 0xE7,
      CHR 0xE8, CHR 0xE9, CHR 0xEA, CHR 0xEB, CHR 0xEC, CHR 0xED, CHR 0xEE, CHR 0xEF,
      CHR 0xF0, CHR 0xF1, CHR 0xF2, CHR 0xF3, CHR 0xF4, CHR 0xF5, CHR 0xF6,
      CHR 0xF8, CHR 0xF9, CHR 0xFA, CHR 0xFB, CHR 0xFC, CHR 0xFD, CHR 0xFE]"

definition lower_char :: "char \<Rightarrow> char" where
  "lower_char c = (case map_of (zip upper_chars lower_chars) c of Some l \<Rightarrow> l | None \<Rightarrow> c)"

text \<open>\<open>s.lower()\<close>.\<close>

definition lower :: "string \<Rightarrow> string" where
  "lower s = map lower_char s"

primrec starts_with :: "string \<Rightarrow> string \<Rightarrow> bool" where
  "starts_with s [] = True"
| "starts_with s (p # ps) = (case s of [] \<Rightarrow> False | c # cs \<Rightarrow> c = p \<and> starts_with cs ps)"

text \<open>\<open>sub in s\<close>: \<open>sub\<close> occurs in \<open>s\<close> as a contiguous substring.\<close>

fun contains :: "string \<Rightarrow> string \<Rightarrow> bool" where
  "contains sub [] = (sub = [])"
| "contains sub (c # cs) = (starts_with (c # cs) sub \<or> contains sub cs)"

text \<open>\<open>str(n)\<close> for a non-negative integer, as the f-string \<open>f"step-{idx}"\<close> renders it.\<close>

fun string_of_nat :: "nat \<Rightarrow> string" where
  "string_of_nat n =
     (if n < 10 then [''0123456789'' ! n]
      else string_of_nat (n div 10) @ [''0123456789'' ! (n mod 10)])"

text \<open>\<open>s.replace(old, new)\<close> for a non-empty \<open>old\<close>: every occurrence, left to right.\<close>

fun replace :: "string \<Rightarrow> string \<Rightarrow> string \<Rightarrow> string" where
  "replace old new [] = []"
| "replace old new (c # cs) =
     (if old \<noteq> [] \<and> starts_with (c # cs) old
      then new @ replace old new (drop (length old) (c # cs))
      else c # replace old new cs)"

text \<open>\<open>os.path.basename\<close> (POSIX): what follows the last slash.\<close>

definition basename :: "string \<Rightarrow> string" where
  "basename p = rev (takeWhile (\<lambda>c. c \<noteq> CHR ''/'') (rev p))"

text \<open>\<open>os.path.join(a, b)\<close> (POSIX) for a relative \<open>b\<close>.\<close>

definition path_join :: "string \<Rightarrow> string \<Rightarrow> string" where
  "path_join a b = (if a = [] \<or> last a = CHR ''/'' then a @ b else a @ ''/'' @ b)"


section \<open>ci\_mapper.py: the plan normalizer\<close>

text \<open>
  A workflow of the expected shape, as the loops of \<open>build_ci_plan\<close> see it once every
  read of the decoded document has succeeded. A key that is absent, or holds a value
  that Python takes for false, is \<open>None\<close> (for \<open>name\<close> of a workflow, which is read
  without \<open>or\<close>, an absent key only); a key that is present has the type the workflow
  schema gives it (a string for \<open>name\<close>, \<open>run\<close> and \<open>uses\<close>, a mapping for \<open>env\<close> and
  \<open>jobs\<close>, a sequence of mappings for \<open>steps\<close>). A mapping keeps the order of its
  keys, as a Python \<open>dict\<close> does, and is an association list. The decoded documents
  themselves, which need not have this shape, follow below.
\<close>

type_synonym env = "(string \<times> string) list"

record raw_step =
  rs_name :: "string option"
  rs_run :: "string option"
  rs_uses :: "string option"
  rs_env :: "env option"

record job_body =
  jb_steps :: "raw_step list option"
  jb_env :: "env option"

record workflow =
  wf_name :: "string option"
  wf_jobs :: "(string \<times> job_body) list option"

text \<open>
  The records above are what the loops of \<open>build_ci_plan\<close> work on once every read has
  succeeded. What \<open>yaml.safe_load\<close> hands back need not have that shape: the code reads
  it with \<open>.get\<close>, \<open>.items\<close>, \<open>.strip\<close>, iteration and \<open>dict()\<close>, and each of these
  raises on a value of another type. The types below are the decoded values with the
  shapes the code tells apart at each of these reads. Values that the code only
  stores or turns into text (\<open>name\<close>, \<open>uses\<close>, the keys and values of \<open>env\<close>, the
  names of the jobs) are strings.
\<close>

text \<open>
  The value of \<open>run\<close>: absent or a value that Python takes for false, a string, or
  another true value (a number, \<open>true\<close>, a sequence, a mapping), on which \<open>.strip\<close>
  raises \<open>AttributeError\<close>.
\<close>

datatype run_value = RunFalsy | RunText string | RunOther

text \<open>
  The value of \<open>env\<close>: absent or false; a mapping; a true value that \<open>dict()\<close> and
  \<open>dict.update\<close> reject with \<open>TypeError\<close> (a number, \<open>true\<close>, a sequence with an element
  that is no sequence); or one they reject with \<open>ValueError\<close> (a string, a sequence
  with an element that has not two elements).
\<close>

datatype env_value = EnvFalsy | EnvMapping env | EnvUnconvertible | EnvWrongLength

record step_fields =
  sf_name :: "string option"
  sf_run :: run_value
  sf_uses :: "string option"
  sf_env :: env_value

text \<open>A step: a mapping, or a value without \<open>.get\<close> (\<open>null\<close>, a scalar, a sequence).\<close>

datatype step_node = StepMapping step_fields | StepOther

text \<open>
  The value of \<open>steps\<close>: absent or false; a sequence; a true value that cannot be
  iterated (a number, \<open>true\<close>), on which \<open>enumerate\<close> raises \<open>TypeError\<close>; or a non-empty
  string or mapping, whose first element (a character, a key) has no \<open>.get\<close>.
\<close>

datatype steps_value =
  StepsFalsy | StepsSequence "step_node list" | StepsNotIterable | StepsOtherIterable

record job_fields =
  jf_steps :: steps_value
  jf_env :: env_value

text \<open>A job body: a mapping, or a value without \<open>.get\<close> (\<open>null\<close>, a scalar, a sequence).\<close>

datatype job_node = JobMapping job_fields | JobOther

text \<open>
  The value of \<open>jobs\<close>: absent or false; a mapping from job names to job bodies; or
  another true value (a sequence, a scalar), which has no \<open>.items\<close>.
\<close>

datatype jobs_value = JobsFalsy | JobsMapping "(string \<times> job_node) list" | JobsOther

record workflow_fields =
  wff_name :: "string option"
  wff_jobs :: jobs_value

text \<open>
  What \<open>yaml.safe_load\<close> hands back for one file: a value that Python takes for false
  (\<open>None\<close> for an empty file, an empty mapping or sequence, \<open>0\<close>, \<open>""\<close>), a non-empty
  mapping, or some other value that Python takes for true (a scalar or a sequence).
\<close>

datatype document = DocFalsy | DocMapping workflow_fields | DocOther

text \<open>The exceptions of the Python sources, as values.\<close>

datatype py_error =
    YAMLError string
  | OSError string
  | AttributeError string
  | ValueError string
  | TypeError string

text \<open>
  The file system the normalizer reads: \<open>fs_glob pattern\<close> is \<open>glob.glob(pattern)\<close>,
  the matching paths in the order the directory scan yields them, and \<open>fs_load path\<close>
  is \<open>open(path)\<close> followed by \<open>yaml.safe_load\<close>, which raises on a file that cannot
  be read or is not YAML.
\<close>

record filesystem =
  fs_glob :: "string \<Rightarrow> string list"
  fs_load :: "string \<Rightarrow> py_error + document"

definition SKIP_KEYWORDS :: "string list" where
  "SKIP_KEYWORDS = [''actions/checkout'', ''actions/setup-python'',
                    ''actions/setup-node'', ''actions/cache'']"

definition INSTALL_HINTS :: "string list" where
  "INSTALL_HINTS = [''pip install'', ''pip3 install'', ''npm ci'', ''npm install'',
                    ''pnpm install'', ''yarn install'']"

text \<open>\<open>x or ""\<close> on an optional string.\<close>

definition or_empty :: "string option \<Rightarrow> string" where
  "or_empty x = (case x of None \<Rightarrow> [] | Some s \<Rightarrow> s)"

text \<open>The truth value of an optional string: \<open>None\<close> and \<open>""\<close> are false.\<close>

definition truthy :: "string option \<Rightarrow> bool" where
  "truthy x = (case x of None \<Rightarrow> False | Some s \<Rightarrow> s \<noteq> [])"

definition looks_like_setup_step :: "raw_step \<Rightarrow> bool" where
  "looks_like_setup_step step =
     (let run_cmd = or_empty (rs_run step) in
      if strip run_cmd = [] then False
      else list_ex (\<lambda>kw. contains kw run_cmd) INSTALL_HINTS)"

definition should_skip_step :: "raw_step \<Rightarrow> bool" where
  "should_skip_step step =
     (let uses = rs_uses step in
      if truthy uses \<and> list_ex (\<lambda>bad. contains bad (or_empty uses)) SKIP_KEYWORDS then True
      else let run_cmd = or_empty (rs_run step) in
        if strip run_cmd = [] \<and> \<not> truthy uses then True else False)"

definition collect_workflow_files :: "filesystem \<Rightarrow> string \<Rightarrow> string list" where
  "collect_workflow_files fs root =
     (let pattern = path_join (path_join (path_join root ''.github'') ''workflows'') ''*.yml'';
          files = sort (fs_glob fs pattern);
          pattern_yaml = replace ''.yml'' ''.yaml'' pattern
      in files @ sort (fs_glob fs pattern_yaml))"

text \<open>
  \<open>_safe_load_yaml\<close> returns \<open>yaml.safe_load(f) or {}\<close>: a false value becomes the empty
  mapping, any other value is returned as it is.
\<close>

definition empty_workflow :: workflow_fields where
  "empty_workflow = \<lparr>wff_name = None, wff_jobs = JobsFalsy\<rparr>"

definition safe_load_yaml :: "filesystem \<Rightarrow> string \<Rightarrow> py_error + document" where
  "safe_load_yaml fs path =
     (case fs_load fs path of
        Inl e \<Rightarrow> Inl e
      | Inr DocFalsy \<Rightarrow> Inr (DocMapping empty_workflow)
      | Inr d \<Rightarrow> Inr d)"

record step_meta =
  meta_workflow :: string
  meta_job :: string
  meta_original_index :: nat
  meta_original_step :: raw_step

record step =
  step_job :: string
  step_name :: string
  step_cmd :: string
  step_install :: bool
  step_meta :: step_meta

definition normalize_step :: "raw_step \<Rightarrow> string \<Rightarrow> nat \<Rightarrow> string \<Rightarrow> step option" where
  "normalize_step st job_name step_idx wfn =
     (if should_skip_step st then None
      else
        let run_cmd = or_empty (rs_run st);
            name = (if truthy (rs_name st) then or_empty (rs_name st)
                    else ''step-'' @ string_of_nat step_idx);
            is_install = looks_like_setup_step st
        in Some \<lparr>step_job = job_name, step_name = name, step_cmd = strip run_cmd,
                 step_install = is_install,
                 step_meta = \<lparr>meta_workflow = wfn, meta_job = job_name,
                               meta_original_index = step_idx,
                               meta_original_step = st\<rparr>\<rparr>)"

text \<open>
  A job of the plan. \<open>workflow_name\<close> is optional because the executor reads it with a
  default; \<open>build_ci_plan\<close> always sets it.
\<close>

record job =
  job_name :: string
  workflow_name :: "string option"
  steps :: "step list"

text \<open>The legacy shape that \<open>build_ci_plan\<close> returns beside the jobs.\<close>

record legacy_step =
  lg_name :: string
  lg_run :: string
  lg_env :: env

record legacy_job =
  lg_job_id :: string
  lg_steps :: "legacy_step list"

record legacy_workflow =
  lg_workflow_file :: string
  lg_jobs :: "legacy_job list"

text \<open>
  The plan dictionary: \<open>jobs\<close> and \<open>workflows\<close> are \<open>None\<close> when the key is absent
  (the executor reads \<open>jobs\<close> with \<open>plan.get("jobs", [])\<close>).
\<close>

record plan =
  jobs :: "job list option"
  workflows :: "legacy_workflow list option"

text \<open>\<open>d[k] = v\<close> and \<open>d.update(other)\<close> on a dictionary that keeps insertion order.\<close>

definition dict_set :: "env \<Rightarrow> string \<Rightarrow> string \<Rightarrow> env" where
  "dict_set d k v =
     (if k \<in> set (map fst d) then map (\<lambda>(k', v'). if k' = k then (k', v) else (k', v')) d
      else d @ [(k, v)])"

definition dict_update :: "env \<Rightarrow> env \<Rightarrow> env" where
  "dict_update d other = foldl (\<lambda>acc (k, v). dict_set acc k v) d other"

text \<open>
  The loop over \<open>enumerate(raw_steps)\<close> of one job: the accumulators are
  \<open>legacy_steps\<close> and \<open>norm_steps\<close>.
\<close>

fun steps_loop ::
  "string \<Rightarrow> string \<Rightarrow> env \<Rightarrow> nat \<Rightarrow> raw_step list \<Rightarrow> legacy_step list \<times> step list
     \<Rightarrow> legacy_step list \<times> step list" where
  "steps_loop job_nm wfn job_env idx [] acc = acc"
| "steps_loop job_nm wfn job_env idx (st # rest) (legacy_steps, norm_steps) =
     (let legacy_steps' =
            (if \<not> should_skip_step st then
               let step_run = or_empty (rs_run st);
                   nm = (if truthy (rs_name st) then or_empty (rs_name st)
                         else ''step-'' @ string_of_nat idx);
                   step_env = dict_update job_env (case rs_env st of None \<Rightarrow> [] | Some e \<Rightarrow> e)
               in if strip step_run \<noteq> []
                  then legacy_steps @ [\<lparr>lg_name = nm, lg_run = strip step_run, lg_env = step_env\<rparr>]
                  else legacy_steps
             else legacy_steps);
          norm_steps' =
            (case normalize_step st job_nm idx wfn of
               None \<Rightarrow> norm_steps
             | Some norm \<Rightarrow> norm_steps @ [norm])
      in steps_loop job_nm wfn job_env (Suc idx) rest (legacy_steps', norm_steps'))"

text \<open>
  The loop over \<open>jobs_dict.items()\<close> of one workflow: the accumulators are \<open>jobs_out\<close>
  and \<open>wf_jobs_legacy\<close>.
\<close>

fun jobs_loop ::
  "string \<Rightarrow> (string \<times> job_body) list \<Rightarrow> job list \<times> legacy_job list
     \<Rightarrow> job list \<times> legacy_job list" where
  "jobs_loop wfn [] acc = acc"
| "jobs_loop wfn ((job_nm, body) # rest) (jobs_out, wf_jobs_legacy) =
     (let raw_steps = (case jb_steps body of None \<Rightarrow> [] | Some ss \<Rightarrow> ss);
          job_env = (case jb_env body of None \<Rightarrow> [] | Some e \<Rightarrow> e);
          (legacy_steps, norm_steps) = steps_loop job_nm wfn job_env 0 raw_steps ([], []);
          jobs_out' =
            (if norm_steps \<noteq> []
             then jobs_out @ [\<lparr>job_name = job_nm, workflow_name = Some wfn, steps = norm_steps\<rparr>]
             else jobs_out);
          wf_jobs_legacy' =
            (if legacy_steps \<noteq> []
             then wf_jobs_legacy @ [\<lparr>lg_job_id = job_nm, lg_steps = legacy_steps\<rparr>]
             else wf_jobs_legacy)
      in jobs_loop wfn rest (jobs_out', wf_jobs_legacy'))"

text \<open>
  The reads of one step, in the order \<open>_should_skip_step\<close> and the loop body make
  them: \<open>st.get\<close>; the return for a known action, which comes before \<open>run\<close> is touched;
  \<open>run_cmd.strip()\<close>; and, for a step that is not skipped, \<open>dict(job_env)\<close> and
  \<open>step_env.update\<close>. The result is the first exception, or the step as the loop sees
  it (a \<open>run\<close> or \<open>env\<close> that is never read is left out of it).
\<close>

definition step_of_fields :: "step_fields \<Rightarrow> raw_step" where
  "step_of_fields f =
     \<lparr>rs_name = sf_name f,
      rs_run = (case sf_run f of RunText t \<Rightarrow> Some t | _ \<Rightarrow> None),
      rs_uses = sf_uses f,
      rs_env = (case sf_env f of EnvMapping e \<Rightarrow> Some e | _ \<Rightarrow> None)\<rparr>"

definition env_error :: "env_value \<Rightarrow> py_error option" where
  "env_error v =
     (case v of
        EnvUnconvertible \<Rightarrow> Some (TypeError ''cannot convert dictionary update sequence'')
      | EnvWrongLength \<Rightarrow> Some (ValueError ''dictionary update sequence element has wrong length'')
      | _ \<Rightarrow> None)"

definition read_step :: "env_value \<Rightarrow> step_node \<Rightarrow> py_error + raw_step" where
  "read_step job_env node =
     (case node of
        StepOther \<Rightarrow> Inl (AttributeError ''get'')
      | StepMapping f \<Rightarrow>
          (let st = step_of_fields f in
           if truthy (sf_uses f)
              \<and> list_ex (\<lambda>bad. contains bad (or_empty (sf_uses f))) SKIP_KEYWORDS
           then Inr st
           else if sf_run f = RunOther then Inl (AttributeError ''strip'')
           else if should_skip_step st then Inr st
           else (case env_error job_env of
                   Some e \<Rightarrow> Inl e
                 | None \<Rightarrow>
                     (case env_error (sf_env f) of
                        Some e \<Rightarrow> Inl e
                      | None \<Rightarrow> Inr st))))"

fun read_steps :: "env_value \<Rightarrow> step_node list \<Rightarrow> py_error + raw_step list" where
  "read_steps job_env [] = Inr []"
| "read_steps job_env (node # rest) =
     (case read_step job_env node of
        Inl e \<Rightarrow> Inl e
      | Inr st \<Rightarrow>
          (case read_steps job_env rest of
             Inl e \<Rightarrow> Inl e
           | Inr sts \<Rightarrow> Inr (st # sts)))"

text \<open>
  The reads of one job: \<open>job_body.get\<close>, the iteration over \<open>steps\<close>, and the reads
  of its steps in order.
\<close>

definition read_job :: "job_node \<Rightarrow> py_error + job_body" where
  "read_job node =
     (case node of
        JobOther \<Rightarrow> Inl (AttributeError ''get'')
      | JobMapping f \<Rightarrow>
          (let e = (case jf_env f of EnvMapping m \<Rightarrow> Some m | _ \<Rightarrow> None) in
           case jf_steps f of
             StepsFalsy \<Rightarrow> Inr \<lparr>jb_steps = None, jb_env = e\<rparr>
           | StepsNotIterable \<Rightarrow> Inl (TypeError ''object is not iterable'')
           | StepsOtherIterable \<Rightarrow> Inl (AttributeError ''get'')
           | StepsSequence nodes \<Rightarrow>
               (case read_steps (jf_env f) nodes of
                  Inl err \<Rightarrow> Inl err
                | Inr sts \<Rightarrow> Inr \<lparr>jb_steps = Some sts, jb_env = e\<rparr>)))"

fun read_jobs :: "(string \<times> job_node) list \<Rightarrow> py_error + (string \<times> job_body) list" where
  "read_jobs [] = Inr []"
| "read_jobs ((job_nm, node) # rest) =
     (case read_job node of
        Inl e \<Rightarrow> Inl e
      | Inr body \<Rightarrow>
          (case read_jobs rest of
             Inl e \<Rightarrow> Inl e
           | Inr bodies \<Rightarrow> Inr ((job_nm, body) # bodies)))"

text \<open>The reads of one workflow mapping: \<open>jobs_dict.items()\<close> and the reads of its jobs.\<close>

definition read_workflow :: "workflow_fields \<Rightarrow> py_error + workflow" where
  "read_workflow f =
     (case wff_jobs f of
        JobsFalsy \<Rightarrow> Inr \<lparr>wf_name = wff_name f, wf_jobs = None\<rparr>
      | JobsOther \<Rightarrow> Inl (AttributeError ''items'')
      | JobsMapping js \<Rightarrow>
          (case read_jobs js of
             Inl e \<Rightarrow> Inl e
           | Inr bodies \<Rightarrow> Inr \<lparr>wf_name = wff_name f, wf_jobs = Some bodies\<rparr>))"

text \<open>
  Everything the code reads of one source file: \<open>_safe_load_yaml\<close>, whose exception is
  not caught, \<open>wf_data.get\<close>, which raises \<open>AttributeError\<close> on a document that is not a
  mapping, and the reads of the workflow.
\<close>

definition read_source :: "filesystem \<Rightarrow> string \<Rightarrow> py_error + workflow" where
  "read_source fs path =
     (case safe_load_yaml fs path of
        Inl e \<Rightarrow> Inl e
      | Inr DocFalsy \<Rightarrow> Inl (AttributeError ''get'')
      | Inr DocOther \<Rightarrow> Inl (AttributeError ''get'')
      | Inr (DocMapping f) \<Rightarrow> read_workflow f)"

text \<open>
  The loop over the workflow files: the accumulators are \<open>jobs_out\<close> and
  \<open>workflows_out\<close>. No exception is caught. An exception ends the call whatever the
  accumulators hold, and the loops over the jobs and steps change nothing else, so
  the reads of a file are made before its jobs are looped over: the result is the one
  of the code, which makes each read when the loops reach it.
\<close>

fun workflows_loop ::
  "filesystem \<Rightarrow> string list \<Rightarrow> job list \<times> legacy_workflow list
     \<Rightarrow> py_error + job list \<times> legacy_workflow list" where
  "workflows_loop fs [] acc = Inr acc"
| "workflows_loop fs (wf_path # rest) (jobs_out, workflows_out) =
     (case read_source fs wf_path of
        Inl e \<Rightarrow> Inl e
      | Inr wf_data \<Rightarrow>
          (let wfn = (case wf_name wf_data of None \<Rightarrow> basename wf_path | Some n \<Rightarrow> n);
               wf_file = basename wf_path;
               jobs_dict = (case wf_jobs wf_data of None \<Rightarrow> [] | Some js \<Rightarrow> js);
               (jobs_out', wf_jobs_legacy) = jobs_loop wfn jobs_dict (jobs_out, []);
               workflows_out' =
                 (if wf_jobs_legacy \<noteq> []
                  then workflows_out @ [\<lparr>lg_workflow_file = wf_file, lg_jobs = wf_jobs_legacy\<rparr>]
                  else workflows_out)
           in workflows_loop fs rest (jobs_out', workflows_out')))"

definition build_ci_plan :: "filesystem \<Rightarrow> string \<Rightarrow> py_error + plan" where
  "build_ci_plan fs root =
     (case workflows_loop fs (collect_workflow_files fs root) ([], []) of
        Inl e \<Rightarrow> Inl e
      | Inr (jobs_out, workflows_out) \<Rightarrow>
          Inr \<lparr>jobs = Some jobs_out,
               workflows = (if workflows_out \<noteq> [] then Some workflows_out else None)\<rparr>)"


section \<open>pro\_features.py: the plan executors\<close>

text \<open>
  The host the executors run on. \<open>spawn cmd\<close> is
  \<open>subprocess.run(cmd, shell=True, capture_output=True, text=True)\<close>: it changes the world
  and yields the completed process. \<open>clock\<close> is \<open>time.time()\<close>, read off the world, in
  milliseconds. \<open>quickfix\<close> is \<open>suggest_fix\<close> of the module-level \<open>quickfix\<close> reference
  (\<open>None\<close> when the import failed or the attribute is missing) and \<open>pkg_quickfix\<close> the
  one of the import repeated at run time; either may raise or return no suggestion.
\<close>

record proc =
  proc_returncode :: int
  proc_stdout :: string
  proc_stderr :: string

record 'w host =
  spawn :: "string \<Rightarrow> 'w \<Rightarrow> proc \<times> 'w"
  clock :: "'w \<Rightarrow> int"
  quickfix :: "(string \<Rightarrow> string \<Rightarrow> string \<Rightarrow> py_error + string option) option"
  pkg_quickfix :: "(string \<Rightarrow> string \<Rightarrow> string \<Rightarrow> py_error + string option) option"

datatype pro_error = ProFeatureError string

definition assert_license_is_valid :: "string option \<Rightarrow> pro_error + unit" where
  "assert_license_is_valid license_key =
     (if \<not> truthy license_key then Inl (ProFeatureError ''No license key provided'')
      else if license_key = Some ''TEST-KEY-OK'' then Inr ()
      else Inr ())"

record cmd_result =
  res_returncode :: int
  res_stdout :: string
  res_stderr :: string
  res_duration_sec :: int

definition run_single_command :: "'w host \<Rightarrow> string \<Rightarrow> 'w \<Rightarrow> cmd_result \<times> 'w" where
  "run_single_command h c w =
     (let start = clock h w;
          (p, w') = spawn h c w;
          end = clock h w'
      in (\<lparr>res_returncode = proc_returncode p,
           res_stdout = strip (proc_stdout p),
           res_stderr = strip (proc_stderr p),
           res_duration_sec = end - start\<rparr>, w'))"

record step_entry =
  se_step_name :: string
  se_cmd :: string
  se_install :: bool
  se_duration_sec :: int
  se_returncode :: int
  se_stdout :: string
  se_stderr :: string
  se_job :: string
  se_workflow_name :: string
  se_meta :: step_meta

record job_report =
  jr_job_name :: string
  jr_workflow_name :: string
  jr_steps :: "step_entry list"

record forensics =
  fa_workflow_name :: string
  fa_job_name :: string
  fa_step_name :: string
  fa_cmd :: string
  fa_returncode :: int
  fa_stderr :: string
  fa_stdout :: string
  fa_duration_sec :: int
  fa_hint :: string

text \<open>
  The \<open>failed_at\<close> block: the license record \<open>{"reason": ..., "message": ...}\<close> or the
  forensic record of a failing step.
\<close>

datatype failure = LicenseFailure string string | StepFailure forensics

record summary =
  total_jobs :: nat
  total_steps :: nat
  failed_at :: "failure option"
  runtime_sec :: int

record report =
  ok :: bool
  summary :: summary
  report_jobs :: "job_report list"

text \<open>A suggestion is used when it is neither \<open>None\<close> nor the empty string.\<close>

definition hint_text :: "'w host \<Rightarrow> string \<Rightarrow> cmd_result \<Rightarrow> string" where
  "hint_text h c result =
     (let default = ''Run the failing command locally to reproduce and fix it.'' in
      case quickfix h of
        Some suggest_fix \<Rightarrow>
          (case suggest_fix c (res_stdout result) (res_stderr result) of
             Inl e \<Rightarrow> ''This is the first failing step. Fix this step to unblock CI.''
           | Inr specific \<Rightarrow> if truthy specific then or_empty specific else default)
      | None \<Rightarrow>
          (case pkg_quickfix h of
             Some suggest_fix \<Rightarrow>
               (case suggest_fix c (res_stdout result) (res_stderr result) of
                  Inl e \<Rightarrow> default
                | Inr specific \<Rightarrow> if truthy specific then or_empty specific else default)
           | None \<Rightarrow> default))"

text \<open>The variables that \<open>run_ci_plan_locally\<close> updates across both loops.\<close>

record 'w exec_state =
  st_total_steps :: nat
  st_failed_at :: "forensics option"
  st_overall_ok :: bool
  st_world :: 'w

definition step_entry_of :: "string \<Rightarrow> string \<Rightarrow> step \<Rightarrow> cmd_result \<Rightarrow> step_entry" where
  "step_entry_of job_nm wfn s result =
     \<lparr>se_step_name = step_name s, se_cmd = step_cmd s, se_install = step_install s,
      se_duration_sec = res_duration_sec result, se_returncode = res_returncode result,
      se_stdout = res_stdout result, se_stderr = res_stderr result,
      se_job = job_nm, se_workflow_name = wfn, se_meta = step_meta s\<rparr>"

definition forensics_of ::
  "'w host \<Rightarrow> string \<Rightarrow> string \<Rightarrow> step \<Rightarrow> cmd_result \<Rightarrow> forensics" where
  "forensics_of h job_nm wfn s result =
     \<lparr>fa_workflow_name = wfn, fa_job_name = job_nm, fa_step_name = step_name s,
      fa_cmd = step_cmd s, fa_returncode = res_returncode result,
      fa_stderr = res_stderr result, fa_stdout = res_stdout result,
      fa_duration_sec = res_duration_sec result,
      fa_hint = hint_text h (step_cmd s) result\<rparr>"

text \<open>
  The loop over \<open>job["steps"]\<close>: \<open>job_steps_report\<close> is the accumulator, and the
  \<open>break\<close> after the first failure is the branch that does not recurse.
\<close>

fun exec_steps ::
  "'w host \<Rightarrow> string \<Rightarrow> string \<Rightarrow> step list \<Rightarrow> step_entry list \<times> 'w exec_state
     \<Rightarrow> step_entry list \<times> 'w exec_state" where
  "exec_steps h job_nm wfn [] acc = acc"
| "exec_steps h job_nm wfn (s # rest) (job_steps_report, st) =
     (let (result, w') = run_single_command h (step_cmd s) (st_world st);
          st1 = st\<lparr>st_total_steps := st_total_steps st + 1, st_world := w'\<rparr>;
          job_steps_report' = job_steps_report @ [step_entry_of job_nm wfn s result]
      in if res_returncode result \<noteq> 0 \<and> st_failed_at st1 = None
         then (job_steps_report',
               st1\<lparr>st_failed_at := Some (forensics_of h job_nm wfn s result),
                   st_overall_ok := False\<rparr>)
         else exec_steps h job_nm wfn rest (job_steps_report', st1))"

text \<open>
  The loop over \<open>plan.get("jobs", [])\<close>: \<open>jobs_report\<close> is the accumulator; the loop
  stops after the first job that left \<open>overall_ok\<close> false.
\<close>

definition wf_name_of :: "job \<Rightarrow> string" where
  "wf_name_of j = (case workflow_name j of None \<Rightarrow> ''unknown-workflow'' | Some n \<Rightarrow> n)"

fun exec_jobs ::
  "'w host \<Rightarrow> job list \<Rightarrow> job_report list \<times> 'w exec_state
     \<Rightarrow> job_report list \<times> 'w exec_state" where
  "exec_jobs h [] acc = acc"
| "exec_jobs h (j # rest) (jobs_report, st) =
     (let job_nm = job_name j;
          wfn = wf_name_of j;
          (job_steps_report, st') = exec_steps h job_nm wfn (steps j) ([], st);
          jobs_report' = jobs_report @
            [\<lparr>jr_job_name = job_nm, jr_workflow_name = wfn, jr_steps = job_steps_report\<rparr>]
      in if \<not> st_overall_ok st' then (jobs_report', st')
         else exec_jobs h rest (jobs_report', st'))"

definition plan_jobs :: "plan \<Rightarrow> job list" where
  "plan_jobs p = (case jobs p of None \<Rightarrow> [] | Some js \<Rightarrow> js)"

definition run_ci_plan_locally ::
  "'w host \<Rightarrow> plan \<Rightarrow> string option \<Rightarrow> 'w \<Rightarrow> report \<times> 'w" where
  "run_ci_plan_locally h p license_key w =
     (case assert_license_is_valid license_key of
        Inl (ProFeatureError msg) \<Rightarrow>
          (\<lparr>ok = False,
            summary = \<lparr>total_jobs = 0, total_steps = 0,
                       failed_at = Some (LicenseFailure ''license'' msg),
                       runtime_sec = 0\<rparr>,
            report_jobs = []\<rparr>, w)
      | Inr _ \<Rightarrow>
          (let t0 = clock h w;
               (jobs_report, st) =
                 exec_jobs h (plan_jobs p)
                   ([], \<lparr>st_total_steps = 0, st_failed_at = None,
                         st_overall_ok = True, st_world = w\<rparr>);
               t1 = clock h (st_world st)
           in (\<lparr>ok = st_overall_ok st,
                 summary = \<lparr>total_jobs = length (plan_jobs p),
                            total_steps = st_total_steps st,
                            failed_at = map_option StepFailure (st_failed_at st),
                            runtime_sec = t1 - t0\<rparr>,
                 report_jobs = jobs_report\<rparr>, st_world st)))"


subsection \<open>The legacy runner \<open>run_ci_steps_locally\<close>\<close>

text \<open>
  The legacy runner takes a list of shell commands or a plan dictionary whose jobs and
  steps are read with defaults: every key may be absent.
\<close>

record lstep =
  ls_name :: "string option"
  ls_step_name :: "string option"
  ls_run :: "string option"
  ls_cmd :: "string option"

record ljob =
  lj_job_name :: "string option"
  lj_job_id :: "string option"
  lj_steps :: "lstep list option"

record lplan =
  lp_jobs :: "ljob list option"

datatype steps_input = CommandList "string list" | PlanDict lplan

text \<open>One entry of \<open>results\<close>; a key the entry does not carry is \<open>None\<close>.\<close>

record step_result =
  sr_job :: string
  sr_step :: string
  sr_cmd :: "string option"
  sr_status :: "string option"
  sr_reason :: "string option"
  sr_stdout :: "string option"
  sr_stderr :: "string option"
  sr_returncode :: "int option"
  sr_output :: "string option"

record steps_report =
  sp_ok :: bool
  sp_results :: "step_result list"

definition DANGEROUS_TOKENS :: "string list" where
  "DANGEROUS_TOKENS = [''rm -rf /'', ''rm -rf ~'', ''shutdown'', ''reboot'', '':(){ :|:& };:'']"

definition is_command_safe :: "string \<Rightarrow> bool" where
  "is_command_safe cmd_str =
     (let lowered = lower cmd_str in \<not> list_ex (\<lambda>bad. contains bad lowered) DANGEROUS_TOKENS)"

text \<open>\<open>a or b\<close> on optional strings.\<close>

definition or_else :: "string option \<Rightarrow> string option \<Rightarrow> string option" where
  "or_else a b = (if truthy a then a else b)"

text \<open>A string between two apostrophes.\<close>

definition quoted :: "string \<Rightarrow> string" where
  "quoted s = [CHR 0x27] @ s @ [CHR 0x27]"

definition skipped_result :: "string \<Rightarrow> string \<Rightarrow> step_result" where
  "skipped_result job_nm step_nm =
     \<lparr>sr_job = job_nm, sr_step = step_nm, sr_cmd = None, sr_status = None, sr_reason = None,
      sr_stdout = None, sr_stderr = None, sr_returncode = None,
      sr_output = Some (''SKIPPED (no '' @ quoted ''run'' @ '' provided)'')\<rparr>"

definition blocked_result :: "string \<Rightarrow> string \<Rightarrow> string \<Rightarrow> step_result" where
  "blocked_result job_nm step_nm c =
     \<lparr>sr_job = job_nm, sr_step = step_nm, sr_cmd = Some c, sr_status = Some ''blocked'',
      sr_reason = Some ''blocked_for_safety'', sr_stdout = Some [],
      sr_stderr = Some ''Command blocked by safety policy'', sr_returncode = None,
      sr_output = None\<rparr>"

definition ran_result :: "string \<Rightarrow> string \<Rightarrow> string \<Rightarrow> proc \<Rightarrow> step_result" where
  "ran_result job_nm step_nm c completed =
     \<lparr>sr_job = job_nm, sr_step = step_nm, sr_cmd = Some c, sr_status = None, sr_reason = None,
      sr_stdout = None, sr_stderr = None, sr_returncode = Some (proc_returncode completed),
      sr_output = Some (''STDOUT:'' @ [CHR 0x0A] @ strip (proc_stdout completed) @
                        [CHR 0x0A, CHR 0x0A] @ ''STDERR:'' @ [CHR 0x0A] @
                        strip (proc_stderr completed))\<rparr>"

definition license_result :: "string \<Rightarrow> step_result" where
  "license_result msg =
     \<lparr>sr_job = ''license-check'', sr_step = ''validate-license'', sr_cmd = None,
      sr_status = None, sr_reason = None, sr_stdout = None, sr_stderr = None,
      sr_returncode = Some 1,
      sr_output = Some (''License validation failed: '' @ msg)\<rparr>"

text \<open>
  The loop over the steps of one job: the accumulators are \<open>results\<close>, \<open>overall_ok\<close>
  and the world. No branch leaves the loop.
\<close>

fun bulk_steps ::
  "'w host \<Rightarrow> string \<Rightarrow> lstep list \<Rightarrow> step_result list \<times> bool \<times> 'w
     \<Rightarrow> step_result list \<times> bool \<times> 'w" where
  "bulk_steps h job_nm [] acc = acc"
| "bulk_steps h job_nm (s # rest) (results, overall_ok, w) =
     (let step_nm = or_empty (or_else (or_else (ls_name s) (ls_step_name s)) (Some ''unnamed-step''));
          c = or_empty (or_else (ls_run s) (ls_cmd s))
      in if c = [] then
           bulk_steps h job_nm rest (results @ [skipped_result job_nm step_nm], overall_ok, w)
         else if \<not> is_command_safe c then
           bulk_steps h job_nm rest (results @ [blocked_result job_nm step_nm c], False, w)
         else
           (let (completed, w') = spawn h c w;
                rc = proc_returncode completed
            in bulk_steps h job_nm rest
                 (results @ [ran_result job_nm step_nm c completed],
                  (if rc \<noteq> 0 then False else overall_ok), w')))"

fun bulk_jobs ::
  "'w host \<Rightarrow> ljob list \<Rightarrow> step_result list \<times> bool \<times> 'w \<Rightarrow> step_result list \<times> bool \<times> 'w" where
  "bulk_jobs h [] acc = acc"
| "bulk_jobs h (j # rest) acc =
     (let job_nm = or_empty (or_else (or_else (lj_job_name j) (lj_job_id j)) (Some ''unknown-job''))
      in bulk_jobs h rest
           (bulk_steps h job_nm (case lj_steps j of None \<Rightarrow> [] | Some ss \<Rightarrow> ss) acc))"

text \<open>The plan that a list of commands is turned into: one job named \<open>legacy\<close>.\<close>

definition legacy_plan :: "string list \<Rightarrow> lplan" where
  "legacy_plan cmds =
     \<lparr>lp_jobs = Some [\<lparr>lj_job_name = Some ''legacy'', lj_job_id = None,
                       lj_steps = Some (map (\<lambda>(i, c). \<lparr>ls_name = Some (''step-'' @ string_of_nat i),
                                                       ls_step_name = None, ls_run = Some c,
                                                       ls_cmd = None\<rparr>)
                                          (enumerate 0 cmds))\<rparr>]\<rparr>"

definition run_ci_steps_locally ::
  "'w host \<Rightarrow> steps_input \<Rightarrow> string option \<Rightarrow> 'w \<Rightarrow> steps_report \<times> 'w" where
  "run_ci_steps_locally h inp license_key w =
     (let legacy_mode = (case inp of CommandList _ \<Rightarrow> True | PlanDict _ \<Rightarrow> False);
          p = (case inp of CommandList cmds \<Rightarrow> legacy_plan cmds | PlanDict d \<Rightarrow> d);
          gate = (if license_key \<noteq> None then
                    (case assert_license_is_valid license_key of
                       Inl (ProFeatureError msg) \<Rightarrow> Some (license_result msg)
                     | Inr _ \<Rightarrow> None)
                  else if \<not> legacy_mode then Some (license_result ''No license key provided'')
                  else None)
      in case gate of
           Some r \<Rightarrow> (\<lparr>sp_ok = False, sp_results = [r]\<rparr>, w)
         | None \<Rightarrow>
             (let (results, overall_ok, w') =
                    bulk_jobs h (case lp_jobs p of None \<Rightarrow> [] | Some js \<Rightarrow> js) ([], True, w)
              in (\<lparr>sp_ok = overall_ok, sp_results = results\<rparr>, w')))"


section \<open>gates.py: the gate runner\<close>

record gate_result =
  gr_name :: string
  gr_status :: string
  gr_info :: string
  gr_details :: string
  gr_returncode :: "int option"
  gr_stdout :: "string option"
  gr_stderr :: "string option"

text \<open>The dictionary \<open>gate_result_to_dict\<close> builds.\<close>

record gate_dict =
  gd_gate :: string
  gd_ok :: bool
  gd_status :: string
  gd_info :: string
  gd_details :: string
  gd_returncode :: "int option"
  gd_stdout :: string
  gd_stderr :: string

definition gate_result_to_dict :: "gate_result \<Rightarrow> gate_dict" where
  "gate_result_to_dict res =
     (let rc = (if gr_returncode res = None \<and> gr_status res = ''PASS'' then Some 0
                else gr_returncode res);
          out = (case gr_stdout res of None \<Rightarrow> gr_details res | Some s \<Rightarrow> s);
          err = (case gr_stderr res of None \<Rightarrow> [] | Some s \<Rightarrow> s)
      in \<lparr>gd_gate = gr_name res, gd_ok = (if gr_status res = ''PASS'' then True else False),
          gd_status = gr_status res, gd_info = gr_info res, gd_details = gr_details res,
          gd_returncode = rc, gd_stdout = out, gd_stderr = err\<rparr>)"

text \<open>
  The check functions of the module, by name. \<open>run_gate\<close> looks each one up in the
  module globals when it runs, so the implementations are a parameter: a check runs in
  the world and either returns a \<open>GateResult\<close> or raises an \<open>Exception\<close> whose text is
  \<open>str(exc)\<close>.
\<close>

datatype check_fn =
    check_lint | check_types | check_tests | check_sqlite_drift
  | check_pg_drift | check_docker_smoke | check_ci_mirror

datatype check_outcome = Returned gate_result | Raised string

type_synonym 'w checks = "check_fn \<Rightarrow> 'w \<Rightarrow> check_outcome \<times> 'w"

definition PRE_COMMIT_TASKS :: "(string \<times> check_fn) list" where
  "PRE_COMMIT_TASKS =
     [(''Lint..........'', check_lint),
      (''Types.........'', check_types),
      (''Tests.........'', check_tests),
      (''SQLite Drift..'', check_sqlite_drift),
      (''CI Mirror.....'', check_ci_mirror)]"

definition PRE_PUSH_TASKS :: "(string \<times> check_fn) list" where
  "PRE_PUSH_TASKS =
     [(''Lint..........'', check_lint),
      (''Types.........'', check_types),
      (''Tests.........'', check_tests),
      (''SQLite Drift..'', check_sqlite_drift),
      (''PG Drift......'', check_pg_drift),
      (''Docker Smoke..'', check_docker_smoke),
      (''CI Mirror.....'', check_ci_mirror)]"

text \<open>
  The loop over the tasks: the accumulators are \<open>results\<close>, \<open>any_fail\<close> and the world.
\<close>

fun gate_loop ::
  "'w checks \<Rightarrow> (string \<times> check_fn) list \<Rightarrow> gate_result list \<times> bool \<times> 'w
     \<Rightarrow> gate_result list \<times> bool \<times> 'w" where
  "gate_loop impl [] acc = acc"
| "gate_loop impl ((label, fn) # rest) (results, any_fail, w) =
     (let (outcome, w') = impl fn w;
          res = (case outcome of
                   Returned r \<Rightarrow> r
                 | Raised exc \<Rightarrow>
                     \<lparr>gr_name = label, gr_status = ''FAIL'', gr_info = ''exception'',
                      gr_details = exc, gr_returncode = None, gr_stdout = None,
                      gr_stderr = Some exc\<rparr>);
          res' = res\<lparr>gr_name := label\<rparr>
      in gate_loop impl rest
           (results @ [res'], (if gr_status res' = ''FAIL'' then True else any_fail), w'))"

definition run_gate ::
  "'w checks \<Rightarrow> string \<Rightarrow> 'w \<Rightarrow> py_error + (gate_dict list \<times> bool) \<times> 'w" where
  "run_gate impl which w =
     (if which \<notin> set [''pre-commit'', ''pre-push'']
      then Inl (ValueError (''gate must be '' @ quoted ''pre-commit'' @ '' or '' @ quoted ''pre-push''))
      else
        let tasks = (if which = ''pre-commit'' then PRE_COMMIT_TASKS else PRE_PUSH_TASKS);
            (results, any_fail, w') = gate_loop impl tasks ([], False, w);
            dict_results = map gate_result_to_dict results
        in Inr ((dict_results, \<not> any_fail), w'))"


section \<open>Notions the properties are stated with\<close>

text \<open>The steps of a plan in execution order: job order, then step order, each with its job.\<close>

definition plan_steps :: "job list \<Rightarrow> (job \<times> step) list" where
  "plan_steps js = concat (map (\<lambda>j. map (Pair j) (steps j)) js)"

text \<open>Running commands one after another on the host: the results and the world left.\<close>

fun run_sequence :: "'w host \<Rightarrow> string list \<Rightarrow> 'w \<Rightarrow> cmd_result list \<times> 'w" where
  "run_sequence h [] w = ([], w)"
| "run_sequence h (c # cs) w =
     (let (r, w') = run_single_command h c w;
          (rs, w'') = run_sequence h cs w'
      in (r # rs, w''))"

text \<open>The execution records of a report, in order.\<close>

definition report_records :: "job_report list \<Rightarrow> step_entry list" where
  "report_records jrs = concat (map jr_steps jrs)"

text \<open>The record the executor writes for a step of a job, given the step's result.\<close>

definition record_of :: "job \<times> step \<Rightarrow> cmd_result \<Rightarrow> step_entry" where
  "record_of js r = step_entry_of (job_name (fst js)) (wf_name_of (fst js)) (snd js) r"

text \<open>
  A host for the examples: the world is the list of the commands spawned so far,
  \<open>false\<close> exits with 1 and every other command with 0, and the clock counts the
  commands spawned.
\<close>

definition log_host :: "string list host" where
  "log_host =
     \<lparr>spawn = (\<lambda>c w. (\<lparr>proc_returncode = (if c = ''false'' then 1 else 0),
                        proc_stdout = [], proc_stderr = []\<rparr>, w @ [c])),
      clock = (\<lambda>w. int (length w)),
      quickfix = None, pkg_quickfix = None\<rparr>"

definition mk_step :: "string \<Rightarrow> string \<Rightarrow> string \<Rightarrow> step" where
  "mk_step job_nm nm c =
     \<lparr>step_job = job_nm, step_name = nm, step_cmd = c, step_install = False,
      step_meta = \<lparr>meta_workflow = ''ci'', meta_job = job_nm, meta_original_index = 0,
                    meta_original_step = \<lparr>rs_name = Some nm, rs_run = Some c,
                                           rs_uses = None, rs_env = None\<rparr>\<rparr>\<rparr>"

text \<open>One job \<open>qa\<close> with the steps \<open>lint\<close>, \<open>boom\<close> and \<open>never\<close>; \<open>boom\<close> fails.\<close>

definition qa_job :: job where
  "qa_job =
     \<lparr>job_name = ''qa'', workflow_name = Some ''ci'',
      steps = [mk_step ''qa'' ''lint'' ''true'',
               mk_step ''qa'' ''boom'' ''false'',
               mk_step ''qa'' ''never'' ''true'']\<rparr>"

definition qa_plan :: plan where
  "qa_plan = \<lparr>jobs = Some [qa_job], workflows = None\<rparr>"


text \<open>A plan whose only step is the fork bomb of the deny-list.\<close>

definition fork_bomb :: string where
  "fork_bomb = '':(){ :|:& };:''"

definition fork_bomb_plan :: plan where
  "fork_bomb_plan =
     \<lparr>jobs = Some [\<lparr>job_name = ''ci'', workflow_name = Some ''ci'',
                    steps = [mk_step ''ci'' ''bomb'' fork_bomb]\<rparr>],
      workflows = None\<rparr>"


text \<open>Running the checks of a task list one after another: the outcomes and the world left.\<close>

fun run_checks :: "'w checks \<Rightarrow> (string \<times> check_fn) list \<Rightarrow> 'w \<Rightarrow> check_outcome list \<times> 'w" where
  "run_checks impl [] w = ([], w)"
| "run_checks impl ((label, fn) # rest) w =
     (let (outcome, w') = impl fn w;
          (outcomes, w'') = run_checks impl rest w'
      in (outcome # outcomes, w''))"

text \<open>The tasks a gate name selects.\<close>

definition gate_tasks :: "string \<Rightarrow> (string \<times> check_fn) list" where
  "gate_tasks which = (if which = ''pre-commit'' then PRE_COMMIT_TASKS else PRE_PUSH_TASKS)"

text \<open>The result the runner stores for a task, given the outcome of its check.\<close>

definition graded :: "string \<times> check_fn \<Rightarrow> check_outcome \<Rightarrow> gate_result" where
  "graded task outcome =
     (case outcome of
        Returned r \<Rightarrow> r\<lparr>gr_name := fst task\<rparr>
      | Raised exc \<Rightarrow>
          \<lparr>gr_name = fst task, gr_status = ''FAIL'', gr_info = ''exception'',
           gr_details = exc, gr_returncode = None, gr_stdout = None, gr_stderr = Some exc\<rparr>)"

text \<open>
  Checks for the examples: the world is the list of the checks run so far; the lint
  check passes, the test check raises, and every other check reports \<open>SKIPPED\<close>.
\<close>

definition demo_checks :: "check_fn list checks" where
  "demo_checks fn w =
     ((if fn = check_tests then Raised ''boom''
       else Returned \<lparr>gr_name = ''probe'',
                      gr_status = (if fn = check_lint then ''PASS'' else ''SKIPPED''),
                      gr_info = [], gr_details = [], gr_returncode = None,
                      gr_stdout = None, gr_stderr = None\<rparr>), w @ [fn])"

text \<open>Checks of which none fails: the lint check passes and the others are skipped.\<close>

definition skipping_checks :: "check_fn list checks" where
  "skipping_checks fn w =
     (Returned \<lparr>gr_name = ''probe'',
                gr_status = (if fn = check_lint then ''PASS'' else ''SKIPPED''),
                gr_info = [], gr_details = [], gr_returncode = None,
                gr_stdout = None, gr_stderr = None\<rparr>, w @ [fn])"


text \<open>
  The steps the normalizer keeps of the raw steps of a job: each raw step with its
  index, in order, without those that \<open>_normalize_step\<close> drops.
\<close>

definition retained_steps :: "string \<Rightarrow> string \<Rightarrow> raw_step list \<Rightarrow> step list" where
  "retained_steps job_nm wfn raw =
     List.map_filter (\<lambda>(i, st). normalize_step st job_nm i wfn) (enumerate 0 raw)"

definition raw_steps_of :: "job_body \<Rightarrow> raw_step list" where
  "raw_steps_of body = (case jb_steps body of None \<Rightarrow> [] | Some ss \<Rightarrow> ss)"

text \<open>
  The jobs a workflow contributes to the plan: its jobs in declaration order, without
  those that keep no step.
\<close>

definition jobs_of :: "string \<Rightarrow> (string \<times> job_body) list \<Rightarrow> job list" where
  "jobs_of wfn jobs_dict =
     map (\<lambda>(job_nm, body). \<lparr>job_name = job_nm, workflow_name = Some wfn,
                               steps = retained_steps job_nm wfn (raw_steps_of body)\<rparr>)
         (filter (\<lambda>(job_nm, body). retained_steps job_nm wfn (raw_steps_of body) \<noteq> [])
                 jobs_dict)"

text \<open>The jobs the source file at a path contributes, when all its reads succeed.\<close>

definition source_jobs :: "filesystem \<Rightarrow> string \<Rightarrow> job list" where
  "source_jobs fs path =
     (case read_source fs path of
        Inr wf_data \<Rightarrow>
          jobs_of (case wf_name wf_data of None \<Rightarrow> basename path | Some n \<Rightarrow> n)
                  (case wf_jobs wf_data of None \<Rightarrow> [] | Some js \<Rightarrow> js)
      | Inl _ \<Rightarrow> [])"






text \<open>A step and a job body of the expected shape, as decoded values.\<close>

definition step_node_of :: "raw_step \<Rightarrow> step_node" where
  "step_node_of st =
     StepMapping \<lparr>sf_name = rs_name st,
                  sf_run = (case rs_run st of None \<Rightarrow> RunFalsy | Some t \<Rightarrow> RunText t),
                  sf_uses = rs_uses st,
                  sf_env = (case rs_env st of None \<Rightarrow> EnvFalsy | Some e \<Rightarrow> EnvMapping e)\<rparr>"

definition job_node_of :: "job_body \<Rightarrow> job_node" where
  "job_node_of body =
     JobMapping \<lparr>jf_steps = (case jb_steps body of None \<Rightarrow> StepsFalsy
                              | Some sts \<Rightarrow> StepsSequence (map step_node_of sts)),
                 jf_env = (case jb_env body of None \<Rightarrow> EnvFalsy | Some e \<Rightarrow> EnvMapping e)\<rparr>"

text \<open>
  File systems for the examples. The workflow \<open>make_workflow\<close> has the one job \<open>build\<close>
  with the one step \<open>run: make\<close> and no name of its own, so a job of the plan carries
  the name of the file it comes from.
\<close>

definition make_workflow :: workflow_fields where
  "make_workflow =
     \<lparr>wff_name = None,
      wff_jobs = JobsMapping
        [(''build'',
          JobMapping \<lparr>jf_steps = StepsSequence
                                     [StepMapping \<lparr>sf_name = Some ''make'', sf_run = RunText ''make'',
                                                    sf_uses = None, sf_env = EnvFalsy\<rparr>],
                      jf_env = EnvFalsy\<rparr>)]\<rparr>"

text \<open>The directory holds \<open>a.yaml\<close> and \<open>b.yml\<close>.\<close>

definition mixed_fs :: filesystem where
  "mixed_fs =
     \<lparr>fs_glob = (\<lambda>p. if p = ''repo/.github/workflows/*.yml''
                        then [''repo/.github/workflows/b.yml'']
                      else if p = ''repo/.github/workflows/*.yaml''
                        then [''repo/.github/workflows/a.yaml'']
                      else []),
      fs_load = (\<lambda>p. Inr (DocMapping make_workflow))\<rparr>"





text \<open>
  The root is named \<open>x.yml\<close>; its workflow directory holds \<open>a.yml\<close> and \<open>b.yaml\<close>.
\<close>

definition dotted_root_fs :: filesystem where
  "dotted_root_fs =
     \<lparr>fs_glob = (\<lambda>p. if p = ''x.yml/.github/workflows/*.yml''
                        then [''x.yml/.github/workflows/a.yml'']
                      else if p = ''x.yml/.github/workflows/*.yaml''
                        then [''x.yml/.github/workflows/b.yaml'']
                      else []),
      fs_load = (\<lambda>p. Inr (DocMapping make_workflow))\<rparr>"

text \<open>A job whose steps are a checkout and a Python setup, and a job that also runs tests.\<close>

definition setup_only_body :: job_body where
  "setup_only_body =
     \<lparr>jb_steps = Some [\<lparr>rs_name = None, rs_run = None,
                         rs_uses = Some ''actions/checkout@v4'', rs_env = None\<rparr>,
                       \<lparr>rs_name = Some ''py'', rs_run = None,
                         rs_uses = Some ''actions/setup-python@v5'', rs_env = None\<rparr>],
      jb_env = None\<rparr>"

definition tests_body :: job_body where
  "tests_body =
     \<lparr>jb_steps = Some [\<lparr>rs_name = None, rs_run = None,
                         rs_uses = Some ''actions/checkout@v4'', rs_env = None\<rparr>,
                       \<lparr>rs_name = Some ''tests'', rs_run = Some ''pytest -q'',
                         rs_uses = None, rs_env = None\<rparr>],
      jb_env = None\<rparr>"

definition setup_fs :: filesystem where
  "setup_fs =
     \<lparr>fs_glob = (\<lambda>p. if p = ''repo/.github/workflows/*.yml''
                        then [''repo/.github/workflows/ci.yml'']
                      else []),
      fs_load = (\<lambda>p. Inr (DocMapping
                            \<lparr>wff_name = Some ''CI'',
                             wff_jobs = JobsMapping [(''prepare'', job_node_of setup_only_body),
                                                     (''qa'', job_node_of tests_body)]\<rparr>))\<rparr>"


section \<open>The early-stop executor stops at the first failing step\<close>


lemma run_sequence_append:
  "run_sequence h (xs @ ys) w =
     (let (a, w1) = run_sequence h xs w; (b, w2) = run_sequence h ys w1 in (a @ b, w2))"
  by (induction xs arbitrary: w) (auto simp: Let_def split: prod.splits)

lemma run_sequence_length: "run_sequence h cs w = (outs, w') \<Longrightarrow> length outs = length cs"
  by (induction cs arbitrary: w outs) (auto simp: Let_def split: prod.splits)

lemma exec_steps_all_ok:
  assumes "run_sequence h (map step_cmd ss) (st_world st) = (outs, w')"
    and "\<forall>i<length ss. res_returncode (outs ! i) = 0"
  shows "exec_steps h jn wfn ss (es, st) =
           (es @ map2 (step_entry_of jn wfn) ss outs,
            st\<lparr>st_total_steps := st_total_steps st + length ss, st_world := w'\<rparr>)"
  using assms
proof (induction ss arbitrary: es st outs)
  case Nil
  then show ?case by simp
next
  case (Cons s ss)
  obtain r w1 where r: "run_single_command h (step_cmd s) (st_world st) = (r, w1)"
    by (cases "run_single_command h (step_cmd s) (st_world st)")
  obtain rs w2 where rs: "run_sequence h (map step_cmd ss) w1 = (rs, w2)"
    by (cases "run_sequence h (map step_cmd ss) w1")
  from Cons.prems(1) r rs have outs: "outs = r # rs" and w': "w' = w2" by auto
  from Cons.prems(2) outs have r0: "res_returncode r = 0" by auto
  from Cons.prems(2) outs have rest0: "\<forall>i<length ss. res_returncode (rs ! i) = 0" by auto
  let ?st1 = "st\<lparr>st_total_steps := st_total_steps st + 1, st_world := w1\<rparr>"
  have "exec_steps h jn wfn (s # ss) (es, st) =
          exec_steps h jn wfn ss (es @ [step_entry_of jn wfn s r], ?st1)"
    using r r0 by simp
  also have "\<dots> = ((es @ [step_entry_of jn wfn s r]) @ map2 (step_entry_of jn wfn) ss rs,
                    ?st1\<lparr>st_total_steps := st_total_steps ?st1 + length ss, st_world := w2\<rparr>)"
    using Cons.IH[where st = ?st1 and outs = rs and es = "es @ [step_entry_of jn wfn s r]"] rs rest0 w'
    by simp
  finally show ?case using outs w' by simp
qed

lemma exec_steps_first_failure:
  assumes "st_failed_at st = None"
    and "k < length ss"
    and "run_sequence h (map step_cmd (take (Suc k) ss)) (st_world st) = (outs, w')"
    and "\<forall>i<k. res_returncode (outs ! i) = 0"
    and "res_returncode (outs ! k) \<noteq> 0"
  shows "exec_steps h jn wfn ss (es, st) =
           (es @ map2 (step_entry_of jn wfn) (take (Suc k) ss) outs,
            st\<lparr>st_total_steps := st_total_steps st + Suc k, st_world := w',
               st_failed_at := Some (forensics_of h jn wfn (ss ! k) (outs ! k)),
               st_overall_ok := False\<rparr>)"
  using assms
proof (induction ss arbitrary: es st outs k)
  case Nil
  then show ?case by simp
next
  case (Cons s ss)
  obtain r w1 where r: "run_single_command h (step_cmd s) (st_world st) = (r, w1)"
    by (cases "run_single_command h (step_cmd s) (st_world st)")
  let ?st1 = "st\<lparr>st_total_steps := st_total_steps st + 1, st_world := w1\<rparr>"
  show ?case
  proof (cases k)
    case 0
    with Cons.prems(3) r have outs: "outs = [r]" and w': "w' = w1" by auto
    with Cons.prems(5) 0 have "res_returncode r \<noteq> 0" by simp
    then show ?thesis using r Cons.prems(1) outs w' 0 by simp
  next
    case (Suc k')
    obtain rs w2 where rs: "run_sequence h (map step_cmd (take (Suc k') ss)) w1 = (rs, w2)"
      by (cases "run_sequence h (map step_cmd (take (Suc k') ss)) w1")
    from Cons.prems(3) r rs Suc have outs: "outs = r # rs" and w': "w' = w2" by auto
    from Cons.prems(4) outs Suc have r0: "res_returncode r = 0" by auto
    from Cons.prems(4) outs Suc have rest0: "\<forall>i<k'. res_returncode (rs ! i) = 0" by auto
    from Cons.prems(5) outs Suc have fail: "res_returncode (rs ! k') \<noteq> 0" by simp
    have "exec_steps h jn wfn (s # ss) (es, st) =
            exec_steps h jn wfn ss (es @ [step_entry_of jn wfn s r], ?st1)"
      using r r0 by simp
    also have "\<dots> = ((es @ [step_entry_of jn wfn s r]) @
                       map2 (step_entry_of jn wfn) (take (Suc k') ss) rs,
                      ?st1\<lparr>st_total_steps := st_total_steps ?st1 + Suc k', st_world := w2,
                           st_failed_at := Some (forensics_of h jn wfn (ss ! k') (rs ! k')),
                           st_overall_ok := False\<rparr>)"
      using Cons.IH[where st = ?st1 and outs = rs and k = k'
                      and es = "es @ [step_entry_of jn wfn s r]"]
        Cons.prems(1,2) Suc rs rest0 fail w'
      by simp
    finally show ?thesis using outs w' Suc by simp
  qed
qed


lemma plan_steps_Cons: "plan_steps (j # js) = map (Pair j) (steps j) @ plan_steps js"
  by (simp add: plan_steps_def)

lemma map2_record_of_Pair:
  "map2 record_of (map (Pair j) xs) outs = map2 (step_entry_of (job_name j) (wf_name_of j)) xs outs"
proof (induction xs arbitrary: outs)
  case Nil
  then show ?case by simp
next
  case (Cons x xs)
  then show ?case by (cases outs) (simp_all add: record_of_def)
qed

lemma report_records_snoc:
  "report_records (jrs @ [jr]) = report_records jrs @ jr_steps jr"
  by (simp add: report_records_def)

lemma exec_jobs_first_failure:
  assumes "st_failed_at st = None"
    and "st_overall_ok st"
    and "k < length (plan_steps js)"
    and "run_sequence h (map (step_cmd \<circ> snd) (take (Suc k) (plan_steps js))) (st_world st) = (outs, w')"
    and "\<forall>i<k. res_returncode (outs ! i) = 0"
    and "res_returncode (outs ! k) \<noteq> 0"
  shows "\<exists>jrs'. exec_jobs h js (jrs, st) =
           (jrs', st\<lparr>st_total_steps := st_total_steps st + Suc k, st_world := w',
                     st_failed_at := Some (forensics_of h (job_name (fst (plan_steps js ! k)))
                                             (wf_name_of (fst (plan_steps js ! k)))
                                             (snd (plan_steps js ! k)) (outs ! k)),
                     st_overall_ok := False\<rparr>)
         \<and> report_records jrs' =
             report_records jrs @ map2 record_of (take (Suc k) (plan_steps js)) outs"
  using assms
proof (induction js arbitrary: jrs st outs k w')
  case Nil
  then show ?case by (simp add: plan_steps_def)
next
  case (Cons j js)
  let ?n = "length (steps j)"
  let ?jn = "job_name j"
  let ?wfn = "wf_name_of j"
  show ?case
  proof (cases "k < ?n")
    case True
    then have tk: "take (Suc k) (plan_steps (j # js)) = map (Pair j) (take (Suc k) (steps j))"
      by (simp add: plan_steps_Cons take_map)
    have nth: "plan_steps (j # js) ! k = (j, steps j ! k)"
      using True by (simp add: plan_steps_Cons nth_append)
    have rs: "run_sequence h (map step_cmd (take (Suc k) (steps j))) (st_world st) = (outs, w')"
      using Cons.prems(4) unfolding tk by (simp add: comp_def)
    have ex: "exec_steps h ?jn ?wfn (steps j) ([], st) =
            ([] @ map2 (step_entry_of ?jn ?wfn) (take (Suc k) (steps j)) outs,
             st\<lparr>st_total_steps := st_total_steps st + Suc k, st_world := w',
                st_failed_at := Some (forensics_of h ?jn ?wfn (steps j ! k) (outs ! k)),
                st_overall_ok := False\<rparr>)"
      by (rule exec_steps_first_failure[OF Cons.prems(1) True rs Cons.prems(5,6)])
    show ?thesis
      using ex nth by (simp add: tk map2_record_of_Pair report_records_snoc Let_def)
  next
    case False
    then have kn: "?n \<le> k" by simp
    have len: "k - ?n < length (plan_steps js)"
      using Cons.prems(3) kn by (simp add: plan_steps_Cons)
    have tk: "take (Suc k) (plan_steps (j # js)) =
                map (Pair j) (steps j) @ take (Suc (k - ?n)) (plan_steps js)"
      using kn by (simp add: plan_steps_Cons Suc_diff_le)
    obtain a w1 where a: "run_sequence h (map step_cmd (steps j)) (st_world st) = (a, w1)"
      by (cases "run_sequence h (map step_cmd (steps j)) (st_world st)")
    obtain b w2 where b: "run_sequence h (map (step_cmd \<circ> snd) (take (Suc (k - ?n)) (plan_steps js))) w1 = (b, w2)"
      by (cases "run_sequence h (map (step_cmd \<circ> snd) (take (Suc (k - ?n)) (plan_steps js))) w1")
    have outs: "outs = a @ b" and w': "w' = w2"
      using Cons.prems(4) a b unfolding tk by (simp_all add: run_sequence_append comp_def)
    have la: "length a = ?n" using run_sequence_length[OF a] by simp
    have a0: "\<forall>i<?n. res_returncode (a ! i) = 0"
    proof (intro allI impI)
      fix i assume i: "i < ?n"
      then have "i < k" using kn by simp
      with Cons.prems(5) have "res_returncode (outs ! i) = 0" by simp
      then show "res_returncode (a ! i) = 0" using i la by (simp add: outs nth_append)
    qed
    have b0: "\<forall>i<k - ?n. res_returncode (b ! i) = 0"
    proof (intro allI impI)
      fix i assume i: "i < k - ?n"
      then have "?n + i < k" by simp
      with Cons.prems(5) have "res_returncode (outs ! (?n + i)) = 0" by blast
      then show "res_returncode (b ! i) = 0" using la by (simp add: outs nth_append)
    qed
    have bk: "res_returncode (b ! (k - ?n)) \<noteq> 0"
      using Cons.prems(6) kn la by (simp add: outs nth_append)
    let ?st1 = "st\<lparr>st_total_steps := st_total_steps st + ?n, st_world := w1\<rparr>"
    let ?jr = "\<lparr>jr_job_name = ?jn, jr_workflow_name = ?wfn,
                jr_steps = map2 (step_entry_of ?jn ?wfn) (steps j) a\<rparr>"
    have ex: "exec_steps h ?jn ?wfn (steps j) ([], st) =
                ([] @ map2 (step_entry_of ?jn ?wfn) (steps j) a, ?st1)"
      by (rule exec_steps_all_ok[OF a a0])
    have step: "exec_jobs h (j # js) (jrs, st) = exec_jobs h js (jrs @ [?jr], ?st1)"
      using ex Cons.prems(2) by (simp add: Let_def)
    have f1: "st_failed_at ?st1 = None" and o1: "st_overall_ok ?st1" and w1: "st_world ?st1 = w1"
      using Cons.prems(1,2) by simp_all
    have b': "run_sequence h (map (step_cmd \<circ> snd) (take (Suc (k - ?n)) (plan_steps js)))
                (st_world ?st1) = (b, w2)"
      using b by simp
    from Cons.IH[OF f1 o1 len b' b0 bk, of "jrs @ [?jr]"]
    obtain jrs' where
      run: "exec_jobs h js (jrs @ [?jr], ?st1) =
              (jrs', ?st1\<lparr>st_total_steps := st_total_steps ?st1 + Suc (k - ?n), st_world := w2,
                     st_failed_at := Some (forensics_of h (job_name (fst (plan_steps js ! (k - ?n))))
                                             (wf_name_of (fst (plan_steps js ! (k - ?n))))
                                             (snd (plan_steps js ! (k - ?n))) (b ! (k - ?n))),
                     st_overall_ok := False\<rparr>)"
      and recs: "report_records jrs' =
              report_records (jrs @ [?jr]) @ map2 record_of (take (Suc (k - ?n)) (plan_steps js)) b"
      by blast
    have nth: "plan_steps (j # js) ! k = plan_steps js ! (k - ?n)"
      using kn by (simp add: plan_steps_Cons nth_append)
    have ok: "outs ! k = b ! (k - ?n)"
      using kn la by (simp add: outs nth_append)
    have z: "map2 record_of (take (Suc k) (plan_steps (j # js))) outs =
             map2 (step_entry_of ?jn ?wfn) (steps j) a @
             map2 record_of (take (Suc (k - ?n)) (plan_steps js)) b"
      unfolding tk outs using la by (simp add: map2_record_of_Pair)
    show ?thesis
      unfolding step using run recs kn
      by (simp add: nth ok z report_records_snoc w')
  qed
qed

text \<open>
  Claim C1. Take a plan, a valid license key and an index \<open>k\<close> into the steps of the
  plan in execution order (job order, then step order). If running the first \<open>k + 1\<close>
  commands one after another makes the first \<open>k\<close> exit with zero and the last one with a
  non-zero code, then \<open>run_ci_plan_locally\<close> returns a report that is not ok, whose
  \<open>failed_at\<close> is the one forensic record of step \<open>k\<close> (its workflow, job, step name,
  command and exit code), which counts \<open>k + 1\<close> steps and whose execution records are
  those of the steps \<open>0\<close> to \<open>k\<close> and no other; the world it leaves is the one left by
  those \<open>k + 1\<close> commands, so no later step of any job has been spawned.
\<close>

theorem early_stop_first_failure:
  assumes "assert_license_is_valid license_key = Inr ()"
    and "k < length (plan_steps (plan_jobs p))"
    and "run_sequence h (map (step_cmd \<circ> snd) (take (Suc k) (plan_steps (plan_jobs p)))) w
           = (outs, w')"
    and "\<forall>i<k. res_returncode (outs ! i) = 0"
    and "res_returncode (outs ! k) \<noteq> 0"
  shows "\<exists>r f. run_ci_plan_locally h p license_key w = (r, w')
           \<and> \<not> ok r
           \<and> failed_at (summary r) = Some (StepFailure f)
           \<and> fa_workflow_name f = wf_name_of (fst (plan_steps (plan_jobs p) ! k))
           \<and> fa_job_name f = job_name (fst (plan_steps (plan_jobs p) ! k))
           \<and> fa_step_name f = step_name (snd (plan_steps (plan_jobs p) ! k))
           \<and> fa_cmd f = step_cmd (snd (plan_steps (plan_jobs p) ! k))
           \<and> fa_returncode f = res_returncode (outs ! k)
           \<and> total_steps (summary r) = Suc k
           \<and> report_records (report_jobs r) =
               map2 record_of (take (Suc k) (plan_steps (plan_jobs p))) outs"
proof -
  let ?st0 = "\<lparr>st_total_steps = 0, st_failed_at = None, st_overall_ok = True, st_world = w\<rparr>"
  have rs: "run_sequence h (map (step_cmd \<circ> snd) (take (Suc k) (plan_steps (plan_jobs p))))
              (st_world ?st0) = (outs, w')"
    using assms(3) by simp
  from exec_jobs_first_failure[OF _ _ assms(2) rs assms(4,5), of "[]"]
  obtain jrs' where
    run: "exec_jobs h (plan_jobs p) ([], ?st0) =
            (jrs', ?st0\<lparr>st_total_steps := st_total_steps ?st0 + Suc k, st_world := w',
                      st_failed_at := Some (forensics_of h (job_name (fst (plan_steps (plan_jobs p) ! k)))
                                              (wf_name_of (fst (plan_steps (plan_jobs p) ! k)))
                                              (snd (plan_steps (plan_jobs p) ! k)) (outs ! k)),
                      st_overall_ok := False\<rparr>)"
    and recs: "report_records jrs' =
                 report_records [] @ map2 record_of (take (Suc k) (plan_steps (plan_jobs p))) outs"
    by auto
  show ?thesis
    using assms(1) run recs
    by (simp add: run_ci_plan_locally_def forensics_of_def report_records_def)
qed

text \<open>
  The theorem at the plan with one job \<open>qa\<close> and the steps \<open>lint\<close>, \<open>boom\<close> and
  \<open>never\<close>, where \<open>boom\<close> fails: the report names \<open>boom\<close> and has no record for
  \<open>never\<close>.
\<close>

theorem early_stop_first_failure_witness:
  "\<exists>r f. run_ci_plan_locally log_host qa_plan (Some ''TEST-KEY-OK'') [] = (r, [''true'', ''false''])
     \<and> \<not> ok r
     \<and> failed_at (summary r) = Some (StepFailure f)
     \<and> fa_workflow_name f = ''ci'' \<and> fa_job_name f = ''qa'' \<and> fa_step_name f = ''boom''
     \<and> fa_cmd f = ''false'' \<and> fa_returncode f = 1
     \<and> total_steps (summary r) = 2
     \<and> map se_step_name (report_records (report_jobs r)) = [''lint'', ''boom'']"
proof -
  let ?outs = "[\<lparr>res_returncode = 0, res_stdout = [], res_stderr = [], res_duration_sec = 1\<rparr>,
                \<lparr>res_returncode = 1, res_stdout = [], res_stderr = [], res_duration_sec = 1\<rparr>]"
  have ps: "plan_steps (plan_jobs qa_plan) =
       [(qa_job, mk_step ''qa'' ''lint'' ''true''),
        (qa_job, mk_step ''qa'' ''boom'' ''false''),
        (qa_job, mk_step ''qa'' ''never'' ''true'')]"
    by (simp add: plan_steps_def plan_jobs_def qa_plan_def qa_job_def)
  have h1: "assert_license_is_valid (Some ''TEST-KEY-OK'') = Inr ()"
    by (simp add: assert_license_is_valid_def truthy_def)
  have h2: "1 < length (plan_steps (plan_jobs qa_plan))"
    by (simp add: ps)
  have h3: "run_sequence log_host (map (step_cmd \<circ> snd) (take (Suc 1) (plan_steps (plan_jobs qa_plan)))) []
              = (?outs, [''true'', ''false''])"
    by (simp add: ps mk_step_def run_single_command_def log_host_def strip_def)
  have h4: "\<forall>i<1. res_returncode (?outs ! i) = 0" by simp
  have h5: "res_returncode (?outs ! 1) \<noteq> 0" by simp
  have nth: "plan_steps (plan_jobs qa_plan) ! 1 = (qa_job, mk_step ''qa'' ''boom'' ''false'')"
    by (simp add: ps)
  have tk: "take (Suc 1) (plan_steps (plan_jobs qa_plan)) =
       [(qa_job, mk_step ''qa'' ''lint'' ''true''), (qa_job, mk_step ''qa'' ''boom'' ''false'')]"
    by (simp add: ps)
  from early_stop_first_failure[OF h1 h2 h3 h4 h5]
  obtain r f where run: "run_ci_plan_locally log_host qa_plan (Some ''TEST-KEY-OK'') [] = (r, [''true'', ''false''])"
    and nok: "\<not> ok r"
    and fa: "failed_at (summary r) = Some (StepFailure f)"
    and f1: "fa_workflow_name f = wf_name_of (fst (plan_steps (plan_jobs qa_plan) ! 1))"
    and f2: "fa_job_name f = job_name (fst (plan_steps (plan_jobs qa_plan) ! 1))"
    and f3: "fa_step_name f = step_name (snd (plan_steps (plan_jobs qa_plan) ! 1))"
    and f4: "fa_cmd f = step_cmd (snd (plan_steps (plan_jobs qa_plan) ! 1))"
    and f5: "fa_returncode f = res_returncode (?outs ! 1)"
    and tot: "total_steps (summary r) = Suc 1"
    and recs: "report_records (report_jobs r) =
                 map2 record_of (take (Suc 1) (plan_steps (plan_jobs qa_plan))) ?outs"
    by blast
  have g1: "fa_workflow_name f = ''ci''" using f1 unfolding nth by (simp add: wf_name_of_def qa_job_def)
  have g2: "fa_job_name f = ''qa''" using f2 unfolding nth by (simp add: qa_job_def)
  have g3: "fa_step_name f = ''boom''" using f3 unfolding nth by (simp add: mk_step_def)
  have g4: "fa_cmd f = ''false''" using f4 unfolding nth by (simp add: mk_step_def)
  have g5: "fa_returncode f = 1" using f5 by simp
  have g6: "map se_step_name (report_records (report_jobs r)) = [''lint'', ''boom'']"
    unfolding recs tk by (simp add: record_of_def step_entry_of_def mk_step_def)
  show ?thesis using run nok fa g1 g2 g3 g4 g5 g6 tot by simp
qed


section \<open>Authorization\<close>

text \<open>
  Claim C3. Whenever the license check rejects the credential (it raises
  \<open>ProFeatureError\<close> with some message), \<open>run_ci_plan_locally\<close> returns at once: the
  report is not ok, its \<open>failed_at\<close> is the license record with reason \<open>license\<close> and
  that message, \<open>total_jobs\<close> and \<open>total_steps\<close> are zero, there is no job report, and
  the world is the one it was called in, so no command of the plan has been spawned.
  The rejected credentials are the missing one and the empty one, and the message
  says that no key was provided.
\<close>

theorem license_failure_short_circuits:
  assumes "assert_license_is_valid license_key = Inl (ProFeatureError msg)"
  shows "run_ci_plan_locally h p license_key w =
           (\<lparr>ok = False,
             summary = \<lparr>total_jobs = 0, total_steps = 0,
                        failed_at = Some (LicenseFailure ''license'' msg), runtime_sec = 0\<rparr>,
             report_jobs = []\<rparr>, w)
         \<and> msg = ''No license key provided''
         \<and> (license_key = None \<or> license_key = Some [])"
  using assms
  by (auto simp: run_ci_plan_locally_def assert_license_is_valid_def truthy_def
           split: if_splits option.splits)

text \<open>The theorem at the missing key and at the empty key.\<close>

theorem license_failure_short_circuits_witness:
  "run_ci_plan_locally log_host qa_plan None [] =
     (\<lparr>ok = False,
       summary = \<lparr>total_jobs = 0, total_steps = 0,
                  failed_at = Some (LicenseFailure ''license'' ''No license key provided''),
                  runtime_sec = 0\<rparr>,
       report_jobs = []\<rparr>, [])
   \<and> run_ci_plan_locally log_host qa_plan (Some []) [] =
     (\<lparr>ok = False,
       summary = \<lparr>total_jobs = 0, total_steps = 0,
                  failed_at = Some (LicenseFailure ''license'' ''No license key provided''),
                  runtime_sec = 0\<rparr>,
       report_jobs = []\<rparr>, [])"
proof -
  have h1: "assert_license_is_valid None = Inl (ProFeatureError ''No license key provided'')"
    by (simp add: assert_license_is_valid_def truthy_def)
  have h2: "assert_license_is_valid (Some []) = Inl (ProFeatureError ''No license key provided'')"
    by (simp add: assert_license_is_valid_def truthy_def)
  show ?thesis
    using license_failure_short_circuits[OF h1, of log_host qa_plan "[]"]
      license_failure_short_circuits[OF h2, of log_host qa_plan "[]"]
    by simp
qed

text \<open>
  Claim C9. For a plan with zero jobs (the key \<open>jobs\<close> absent, or the empty list) and a
  valid license key, \<open>run_ci_plan_locally\<close> returns a report that is ok, with
  \<open>total_steps\<close> zero and \<open>failed_at\<close> null; nothing is spawned.
\<close>

theorem empty_plan_succeeds:
  assumes "assert_license_is_valid license_key = Inr ()"
    and "jobs p = None \<or> jobs p = Some []"
  shows "\<exists>r. run_ci_plan_locally h p license_key w = (r, w)
           \<and> ok r
           \<and> total_jobs (summary r) = 0
           \<and> total_steps (summary r) = 0
           \<and> failed_at (summary r) = None
           \<and> report_jobs r = []"
  using assms by (auto simp: run_ci_plan_locally_def plan_jobs_def)

text \<open>The theorem at the plan \<open>{"jobs": []}\<close>.\<close>

theorem empty_plan_succeeds_witness:
  "\<exists>r. run_ci_plan_locally log_host \<lparr>jobs = Some [], workflows = None\<rparr> (Some ''TEST-KEY-OK'') [] = (r, [])
       \<and> ok r \<and> total_jobs (summary r) = 0 \<and> total_steps (summary r) = 0
       \<and> failed_at (summary r) = None \<and> report_jobs r = []"
proof -
  have h1: "assert_license_is_valid (Some ''TEST-KEY-OK'') = Inr ()"
    by (simp add: assert_license_is_valid_def truthy_def)
  have h2: "jobs \<lparr>jobs = Some [], workflows = None\<rparr> = None
            \<or> jobs \<lparr>jobs = Some [], workflows = None\<rparr> = Some []"
    by simp
  show ?thesis using empty_plan_succeeds[OF h1 h2, of log_host "[]"] by simp
qed



section \<open>The safety filter\<close>

text \<open>
  The filter rejects the fork bomb, and the legacy runner, which consults the filter,
  records a blocked step without spawning the command.
\<close>

lemma fork_bomb_is_unsafe: "\<not> is_command_safe fork_bomb"
  by (simp add: is_command_safe_def fork_bomb_def DANGEROUS_TOKENS_def lower_def lower_char_def
      upper_chars_def lower_chars_def)

lemma bulk_steps_blocks_unsafe:
  assumes "or_empty (or_else (ls_run s) (ls_cmd s)) = c" and "c \<noteq> []" and "\<not> is_command_safe c"
  shows "bulk_steps h job_nm (s # rest) (results, overall_ok, w) =
           bulk_steps h job_nm rest
             (results @ [blocked_result job_nm
                (or_empty (or_else (or_else (ls_name s) (ls_step_name s)) (Some ''unnamed-step''))) c],
              False, w)"
  using assms by (simp add: Let_def)

lemma legacy_runner_blocks_fork_bomb:
  "run_ci_steps_locally log_host (CommandList [fork_bomb]) None [] =
     (\<lparr>sp_ok = False, sp_results = [blocked_result ''legacy'' ''step-0'' fork_bomb]\<rparr>, [])"
  using fork_bomb_is_unsafe
  by (simp add: run_ci_steps_locally_def legacy_plan_def or_else_def or_empty_def truthy_def
      fork_bomb_def enumerate_eq_zip)

lemma bulk_steps_append:
  "bulk_steps h job_nm (xs @ ys) acc = bulk_steps h job_nm ys (bulk_steps h job_nm xs acc)"
proof (induction xs arbitrary: acc)
  case Nil
  then show ?case by simp
next
  case (Cons s xs)
  obtain results overall_ok w where acc: "acc = (results, overall_ok, w)" by (cases acc)
  show ?case unfolding acc by (simp add: Let_def Cons.IH split: prod.splits)
qed

lemma bulk_jobs_append:
  "bulk_jobs h (xs @ ys) acc = bulk_jobs h ys (bulk_jobs h xs acc)"
  by (induction xs arbitrary: acc) (simp_all add: Let_def)

lemma bulk_steps_extends:
  "\<exists>rs w'. bulk_steps h job_nm xs (results, False, w) = (results @ rs, False, w')"
proof (induction xs arbitrary: results w)
  case Nil
  then show ?case by simp
next
  case (Cons s xs)
  let ?c = "or_empty (or_else (ls_run s) (ls_cmd s))"
  obtain completed w1 where sp: "spawn h ?c w = (completed, w1)" by (cases "spawn h ?c w")
  have "\<exists>r w2. bulk_steps h job_nm (s # xs) (results, False, w) =
                 bulk_steps h job_nm xs (results @ [r], False, w2)"
    using sp by (auto simp: Let_def)
  then obtain r w2 where step: "bulk_steps h job_nm (s # xs) (results, False, w) =
                 bulk_steps h job_nm xs (results @ [r], False, w2)" by blast
  from Cons.IH[of "results @ [r]" w2] obtain rs w' where
    "bulk_steps h job_nm xs (results @ [r], False, w2) = ((results @ [r]) @ rs, False, w')" by blast
  then show ?case unfolding step by auto
qed

lemma bulk_jobs_extends:
  "\<exists>rs w'. bulk_jobs h js (results, False, w) = (results @ rs, False, w')"
proof (induction js arbitrary: results w)
  case Nil
  then show ?case by simp
next
  case (Cons j js)
  let ?jn = "or_empty (or_else (or_else (lj_job_name j) (lj_job_id j)) (Some ''unknown-job''))"
  let ?ss = "case lj_steps j of None \<Rightarrow> [] | Some ss \<Rightarrow> ss"
  from bulk_steps_extends[of h ?jn ?ss results w] obtain rs1 w1 where
    s1: "bulk_steps h ?jn ?ss (results, False, w) = (results @ rs1, False, w1)" by blast
  from Cons.IH[of "results @ rs1" w1] obtain rs2 w2 where
    "bulk_jobs h js (results @ rs1, False, w1) = ((results @ rs1) @ rs2, False, w2)" by blast
  then show ?case using s1 by (simp add: Let_def)
qed

text \<open>
  The legacy runner on a plan dictionary, with a license key it accepts: a step whose
  command contains a deny-list substring gets a blocked record right after the records
  of the earlier steps, the run is not ok, and the later steps and jobs go on from the
  world the earlier steps left, so the command itself has not been spawned.
\<close>

lemma legacy_runner_blocks_unsafe_step:
  assumes "truthy license_key"
    and "lp_jobs p = Some (pre @ j # post)"
    and "lj_steps j = Some (before @ s # after)"
    and "job_nm = or_empty (or_else (or_else (lj_job_name j) (lj_job_id j)) (Some ''unknown-job''))"
    and "step_nm = or_empty (or_else (or_else (ls_name s) (ls_step_name s)) (Some ''unnamed-step''))"
    and "c = or_empty (or_else (ls_run s) (ls_cmd s))"
    and "c \<noteq> []"
    and "\<not> is_command_safe c"
    and "bulk_steps h job_nm before (bulk_jobs h pre ([], True, w)) = (earlier, overall_ok, w1)"
  shows "\<exists>later w'.
           run_ci_steps_locally h (PlanDict p) license_key w =
             (\<lparr>sp_ok = False, sp_results = earlier @ blocked_result job_nm step_nm c # later\<rparr>, w')
           \<and> bulk_jobs h post
                (bulk_steps h job_nm after (earlier @ [blocked_result job_nm step_nm c], False, w1))
               = (earlier @ blocked_result job_nm step_nm c # later, False, w')"
proof -
  let ?b = "blocked_result job_nm step_nm c"
  have blocked: "bulk_steps h job_nm (s # after) (earlier, overall_ok, w1) =
                   bulk_steps h job_nm after (earlier @ [?b], False, w1)"
    using bulk_steps_blocks_unsafe[of s c h job_nm after earlier overall_ok w1] assms(5,6,7,8)
    by simp
  from bulk_steps_extends[of h job_nm after "earlier @ [?b]" w1] obtain rs1 w2 where
    s1: "bulk_steps h job_nm after (earlier @ [?b], False, w1) = ((earlier @ [?b]) @ rs1, False, w2)"
    by blast
  from bulk_jobs_extends[of h post "(earlier @ [?b]) @ rs1" w2] obtain rs2 w' where
    s2: "bulk_jobs h post ((earlier @ [?b]) @ rs1, False, w2) =
           (((earlier @ [?b]) @ rs1) @ rs2, False, w')"
    by blast
  have all: "bulk_jobs h (pre @ j # post) ([], True, w) =
               bulk_jobs h post (bulk_steps h job_nm after (earlier @ [?b], False, w1))"
    using assms(3,4,9) blocked
    by (simp add: bulk_jobs_append bulk_steps_append Let_def)
  have lic: "assert_license_is_valid license_key = Inr ()" "license_key \<noteq> None"
    using assms(1) by (auto simp: assert_license_is_valid_def truthy_def split: option.splits)
  have run: "run_ci_steps_locally h (PlanDict p) license_key w =
               (\<lparr>sp_ok = False, sp_results = earlier @ ?b # (rs1 @ rs2)\<rparr>, w')"
    using lic assms(2) all s1 s2 by (simp add: run_ci_steps_locally_def)
  show ?thesis using run s1 s2 by auto
qed

text \<open>
  Claim C4. The claim is that the plan executor rejects every command that contains a
  deny-list substring: the command is never spawned, a blocked record is produced and
  the run is marked failed. \<open>run_ci_plan_locally\<close> does not consult the filter: on a
  plan whose only step is the fork bomb, which the filter rejects, the command is
  spawned, the step's record is that of a command that ran, and the report is ok.
\<close>

theorem plan_executor_spawns_fork_bomb:
  "\<not> is_command_safe fork_bomb
   \<and> snd (run_ci_plan_locally log_host fork_bomb_plan (Some ''TEST-KEY-OK'') []) = [fork_bomb]
   \<and> ok (fst (run_ci_plan_locally log_host fork_bomb_plan (Some ''TEST-KEY-OK'') []))
   \<and> map se_returncode (report_records (report_jobs
         (fst (run_ci_plan_locally log_host fork_bomb_plan (Some ''TEST-KEY-OK'') [])))) = [0]"
  using fork_bomb_is_unsafe
  by (simp add: run_ci_plan_locally_def assert_license_is_valid_def truthy_def plan_jobs_def
      fork_bomb_plan_def mk_step_def run_single_command_def log_host_def wf_name_of_def
      fork_bomb_def report_records_def step_entry_of_def Let_def)


section \<open>The gate runner\<close>

text \<open>
  Two facts about the loop of \<open>run_gate\<close>: \<open>any_fail\<close> is true exactly when some
  stored result has the status \<open>FAIL\<close>, and the stored results are the graded outcomes
  of the checks, one per task and in the order of the tasks.
\<close>

lemma gate_loop_any_fail:
  assumes "any_fail \<longleftrightarrow> (\<exists>r\<in>set results. gr_status r = ''FAIL'')"
    and "gate_loop impl tasks (results, any_fail, w) = (results', any_fail', w')"
  shows "any_fail' \<longleftrightarrow> (\<exists>r\<in>set results'. gr_status r = ''FAIL'')"
  using assms
proof (induction tasks arbitrary: results any_fail w)
  case Nil
  then show ?case by auto
next
  case (Cons t tasks)
  obtain label fn where t: "t = (label, fn)" by (cases t)
  obtain outcome w1 where o: "impl fn w = (outcome, w1)" by (cases "impl fn w")
  let ?res = "graded (label, fn) outcome"
  let ?af = "if gr_status ?res = ''FAIL'' then True else any_fail"
  have step: "gate_loop impl (t # tasks) (results, any_fail, w) =
                gate_loop impl tasks (results @ [?res], ?af, w1)"
    using o by (simp add: t graded_def Let_def split: check_outcome.splits)
  have inv: "?af \<longleftrightarrow> (\<exists>r\<in>set (results @ [?res]). gr_status r = ''FAIL'')"
    using Cons.prems(1) by auto
  show ?case
    by (rule Cons.IH[OF inv]) (use Cons.prems(2) step in simp)
qed

lemma gate_loop_graded:
  assumes "run_checks impl tasks w = (outcomes, w')"
  shows "\<exists>any_fail'. gate_loop impl tasks (results, any_fail, w) =
           (results @ map2 graded tasks outcomes, any_fail', w')"
  using assms
proof (induction tasks arbitrary: results any_fail w outcomes w')
  case Nil
  then show ?case by simp
next
  case (Cons t tasks)
  obtain label fn where t: "t = (label, fn)" by (cases t)
  obtain outcome w1 where o: "impl fn w = (outcome, w1)" by (cases "impl fn w")
  obtain os w2 where os: "run_checks impl tasks w1 = (os, w2)" by (cases "run_checks impl tasks w1")
  from Cons.prems o os have outs: "outcomes = outcome # os" and w': "w' = w2"
    by (simp_all add: t)
  let ?res = "graded (label, fn) outcome"
  let ?af = "if gr_status ?res = ''FAIL'' then True else any_fail"
  have step: "gate_loop impl (t # tasks) (results, any_fail, w) =
                gate_loop impl tasks (results @ [?res], ?af, w1)"
    using o by (simp add: t graded_def Let_def split: check_outcome.splits)
  from Cons.IH[OF os, of "results @ [?res]" ?af]
  obtain af' where "gate_loop impl tasks (results @ [?res], ?af, w1) =
           ((results @ [?res]) @ map2 graded tasks os, af', w2)" by blast
  then show ?case unfolding step by (simp add: outs w' t)
qed

lemma run_checks_length: "run_checks impl tasks w = (outcomes, w') \<Longrightarrow> length outcomes = length tasks"
  by (induction tasks arbitrary: w outcomes) (auto simp: Let_def split: prod.splits)

lemma gd_status_dict [simp]: "gd_status (gate_result_to_dict r) = gr_status r"
  by (simp add: gate_result_to_dict_def Let_def)

text \<open>
  Claim C2. For the gate names \<open>pre-commit\<close> and \<open>pre-push\<close>, \<open>run_gate\<close> returns, and
  the flag it returns is true exactly when no returned result has the status \<open>FAIL\<close>;
  in particular results that are \<open>SKIPPED\<close> (or anything else than \<open>FAIL\<close>) never make
  it false.
\<close>

theorem overall_ok_iff_no_fail:
  assumes "which = ''pre-commit'' \<or> which = ''pre-push''"
  shows "\<exists>results overall_ok w'.
           run_gate impl which w = Inr ((results, overall_ok), w')
           \<and> (overall_ok \<longleftrightarrow> \<not> (\<exists>r\<in>set results. gd_status r = ''FAIL''))
           \<and> ((\<forall>r\<in>set results. gd_status r \<noteq> ''FAIL'') \<longrightarrow> overall_ok)"
proof -
  obtain results any_fail w' where
    loop: "gate_loop impl (gate_tasks which) ([], False, w) = (results, any_fail, w')"
    by (cases "gate_loop impl (gate_tasks which) ([], False, w)")
  have af: "any_fail \<longleftrightarrow> (\<exists>r\<in>set results. gr_status r = ''FAIL'')"
    by (rule gate_loop_any_fail[OF _ loop]) simp
  have run: "run_gate impl which w = Inr ((map gate_result_to_dict results, \<not> any_fail), w')"
    using assms loop by (auto simp: run_gate_def gate_tasks_def)
  show ?thesis using run af by auto
qed

text \<open>
  The theorem at a pre-push run where one check passes and six are skipped, and at a
  pre-commit run where one check fails.
\<close>

theorem overall_ok_iff_no_fail_witness:
  "(\<exists>results w'. run_gate skipping_checks ''pre-push'' [] = Inr ((results, True), w')
       \<and> ''SKIPPED'' \<in> set (map gd_status results) \<and> ''FAIL'' \<notin> set (map gd_status results))
   \<and> (\<exists>results w'. run_gate demo_checks ''pre-commit'' [] = Inr ((results, False), w')
       \<and> ''FAIL'' \<in> set (map gd_status results))"
proof -
  have h1: "''pre-push'' = ''pre-commit'' \<or> ''pre-push'' = ''pre-push''" by simp
  have h2: "''pre-commit'' = ''pre-commit'' \<or> ''pre-commit'' = ''pre-push''" by simp
  have e1: "map gd_status (fst (fst (projr (run_gate skipping_checks ''pre-push'' [])))) =
              [''PASS'', ''SKIPPED'', ''SKIPPED'', ''SKIPPED'', ''SKIPPED'', ''SKIPPED'', ''SKIPPED'']"
    by (simp add: run_gate_def PRE_PUSH_TASKS_def skipping_checks_def)
  have e2: "map gd_status (fst (fst (projr (run_gate demo_checks ''pre-commit'' [])))) =
              [''PASS'', ''SKIPPED'', ''FAIL'', ''SKIPPED'', ''SKIPPED'']"
    by (simp add: run_gate_def PRE_COMMIT_TASKS_def demo_checks_def)
  from overall_ok_iff_no_fail[OF h1, of skipping_checks "[]"] e1
  have a: "\<exists>results w'. run_gate skipping_checks ''pre-push'' [] = Inr ((results, True), w')
       \<and> ''SKIPPED'' \<in> set (map gd_status results) \<and> ''FAIL'' \<notin> set (map gd_status results)"
    by auto
  from overall_ok_iff_no_fail[OF h2, of demo_checks "[]"] e2
  have b: "\<exists>results w'. run_gate demo_checks ''pre-commit'' [] = Inr ((results, False), w')
       \<and> ''FAIL'' \<in> set (map gd_status results)"
    by auto
  show ?thesis using a b by blast
qed

text \<open>
  Claim C5. For the gate names \<open>pre-commit\<close> and \<open>pre-push\<close>, whatever the checks do,
  \<open>run_gate\<close> returns a result for every task of the sequence, under the task's label
  and in order; a check that raised an exception is graded \<open>FAIL\<close> with the exception
  text as details and as stderr, the flag is then false, and the checks after it have
  still run (the world is the one left by all the checks).
\<close>

theorem exceptions_become_fail:
  assumes "which = ''pre-commit'' \<or> which = ''pre-push''"
    and "run_checks impl (gate_tasks which) w = (outcomes, w')"
  shows "\<exists>results overall_ok.
           run_gate impl which w = Inr ((results, overall_ok), w')
           \<and> length results = length (gate_tasks which)
           \<and> map gd_gate results = map fst (gate_tasks which)
           \<and> (\<forall>i<length (gate_tasks which). \<forall>exc. outcomes ! i = Raised exc \<longrightarrow>
                 gd_status (results ! i) = ''FAIL''
                 \<and> gd_info (results ! i) = ''exception''
                 \<and> gd_details (results ! i) = exc
                 \<and> gd_stderr (results ! i) = exc
                 \<and> \<not> overall_ok)"
proof -
  let ?tasks = "gate_tasks which"
  from gate_loop_graded[OF assms(2), of "[]" False]
  obtain any_fail where
    loop: "gate_loop impl ?tasks ([], False, w) = ([] @ map2 graded ?tasks outcomes, any_fail, w')"
    by blast
  let ?rs = "map2 graded ?tasks outcomes"
  have len: "length outcomes = length ?tasks" by (rule run_checks_length[OF assms(2)])
  have af: "any_fail \<longleftrightarrow> (\<exists>r\<in>set ?rs. gr_status r = ''FAIL'')"
    by (rule gate_loop_any_fail[OF _ loop[simplified]]) simp
  have run: "run_gate impl which w = Inr ((map gate_result_to_dict ?rs, \<not> any_fail), w')"
    using assms(1) loop by (auto simp: run_gate_def gate_tasks_def)
  have names: "map gd_gate (map gate_result_to_dict ?rs) = map fst ?tasks"
  proof (rule nth_equalityI)
    show "length (map gd_gate (map gate_result_to_dict ?rs)) = length (map fst ?tasks)"
      using len by simp
  next
    fix i assume "i < length (map gd_gate (map gate_result_to_dict ?rs))"
    then have i: "i < length ?tasks" using len by simp
    then show "map gd_gate (map gate_result_to_dict ?rs) ! i = map fst ?tasks ! i"
      using len by (simp add: gate_result_to_dict_def graded_def Let_def split: check_outcome.splits)
  qed
  have exc: "\<forall>i<length ?tasks. \<forall>exc. outcomes ! i = Raised exc \<longrightarrow>
                 gd_status (map gate_result_to_dict ?rs ! i) = ''FAIL''
                 \<and> gd_info (map gate_result_to_dict ?rs ! i) = ''exception''
                 \<and> gd_details (map gate_result_to_dict ?rs ! i) = exc
                 \<and> gd_stderr (map gate_result_to_dict ?rs ! i) = exc
                 \<and> any_fail"
  proof (intro allI impI)
    fix i exc assume i: "i < length ?tasks" and r: "outcomes ! i = Raised exc"
    have g: "?rs ! i = graded (?tasks ! i) (Raised exc)" using i len r by simp
    have "?rs ! i \<in> set ?rs" using i len by (intro nth_mem) simp
    moreover have "gr_status (?rs ! i) = ''FAIL''" unfolding g by (simp add: graded_def)
    ultimately have "any_fail" using af by blast
    then show "gd_status (map gate_result_to_dict ?rs ! i) = ''FAIL''
                 \<and> gd_info (map gate_result_to_dict ?rs ! i) = ''exception''
                 \<and> gd_details (map gate_result_to_dict ?rs ! i) = exc
                 \<and> gd_stderr (map gate_result_to_dict ?rs ! i) = exc
                 \<and> any_fail"
      using i len g by (simp add: gate_result_to_dict_def graded_def Let_def)
  qed
  show ?thesis using run names exc len by auto
qed

text \<open>The theorem at a pre-commit run whose test check raises \<open>boom\<close>.\<close>

theorem exceptions_become_fail_witness:
  "\<exists>results. run_gate demo_checks ''pre-commit'' [] =
       Inr ((results, False),
            [check_lint, check_types, check_tests, check_sqlite_drift, check_ci_mirror])
     \<and> length results = 5
     \<and> gd_gate (results ! 2) = ''Tests.........''
     \<and> gd_status (results ! 2) = ''FAIL''
     \<and> gd_details (results ! 2) = ''boom''
     \<and> gd_stderr (results ! 2) = ''boom''"
proof -
  let ?skip = "\<lparr>gr_name = ''probe'', gr_status = ''SKIPPED'', gr_info = [], gr_details = [],
                gr_returncode = None, gr_stdout = None, gr_stderr = None\<rparr>"
  let ?pass = "\<lparr>gr_name = ''probe'', gr_status = ''PASS'', gr_info = [], gr_details = [],
                gr_returncode = None, gr_stdout = None, gr_stderr = None\<rparr>"
  let ?outs = "[Returned ?pass, Returned ?skip, Raised ''boom'', Returned ?skip, Returned ?skip]"
  have tasks: "gate_tasks ''pre-commit'' = PRE_COMMIT_TASKS" by (simp add: gate_tasks_def)
  have h1: "''pre-commit'' = ''pre-commit'' \<or> ''pre-commit'' = ''pre-push''" by simp
  have h2: "run_checks demo_checks (gate_tasks ''pre-commit'') [] =
              (?outs, [check_lint, check_types, check_tests, check_sqlite_drift, check_ci_mirror])"
    unfolding tasks by (simp add: PRE_COMMIT_TASKS_def demo_checks_def)
  from exceptions_become_fail[OF h1 h2]
  obtain results overall_ok where
    run: "run_gate demo_checks ''pre-commit'' [] =
            Inr ((results, overall_ok),
                 [check_lint, check_types, check_tests, check_sqlite_drift, check_ci_mirror])"
    and len: "length results = length (gate_tasks ''pre-commit'')"
    and names: "map gd_gate results = map fst (gate_tasks ''pre-commit'')"
    and exc: "\<forall>i<length (gate_tasks ''pre-commit''). \<forall>exc. ?outs ! i = Raised exc \<longrightarrow>
                 gd_status (results ! i) = ''FAIL''
                 \<and> gd_info (results ! i) = ''exception''
                 \<and> gd_details (results ! i) = exc
                 \<and> gd_stderr (results ! i) = exc
                 \<and> \<not> overall_ok"
    by blast
  have l5: "length results = 5" using len unfolding tasks by (simp add: PRE_COMMIT_TASKS_def)
  have "2 < length (gate_tasks ''pre-commit'')" unfolding tasks by (simp add: PRE_COMMIT_TASKS_def)
  with exc have at2: "gd_status (results ! 2) = ''FAIL'' \<and> gd_details (results ! 2) = ''boom''
                      \<and> gd_stderr (results ! 2) = ''boom'' \<and> \<not> overall_ok"
    by auto
  have "map gd_gate results ! 2 = ''Tests.........''"
    unfolding names tasks by (simp add: PRE_COMMIT_TASKS_def)
  then have n2: "gd_gate (results ! 2) = ''Tests.........''" using l5 by simp
  show ?thesis using run l5 at2 n2 by auto
qed


section \<open>The normalizer\<close>

text \<open>
  The loops of \<open>build_ci_plan\<close> without their accumulators: the steps kept of a job,
  the jobs kept of a workflow, and the jobs of the plan as the concatenation of what
  each source contributes, in the order the sources are collected. A source that does
  not load makes the whole call raise.
\<close>

lemma steps_loop_norm:
  "snd (steps_loop job_nm wfn job_env idx raw (legacy_steps, norm_steps)) =
     norm_steps @ List.map_filter (\<lambda>(i, st). normalize_step st job_nm i wfn) (enumerate idx raw)"
proof (induction raw arbitrary: idx legacy_steps norm_steps)
  case Nil
  then show ?case by (simp add: List.map_filter_simps)
next
  case (Cons st raw)
  show ?case
    by (cases "normalize_step st job_nm idx wfn")
       (simp_all add: Let_def List.map_filter_simps Cons.IH del: steps_loop.simps(2)
          add: steps_loop.simps(2)[unfolded Let_def])
qed

lemma steps_loop_legacy_skipped:
  "\<forall>st\<in>set raw. should_skip_step st \<Longrightarrow>
     fst (steps_loop job_nm wfn job_env idx raw (legacy_steps, norm_steps)) = legacy_steps"
proof (induction raw arbitrary: idx legacy_steps norm_steps)
  case Nil
  then show ?case by simp
next
  case (Cons st raw)
  then have sk: "should_skip_step st" and rest: "\<forall>st\<in>set raw. should_skip_step st" by simp_all
  have "steps_loop job_nm wfn job_env idx (st # raw) (legacy_steps, norm_steps) =
          steps_loop job_nm wfn job_env (Suc idx) raw (legacy_steps, norm_steps)"
    using sk by (simp add: normalize_step_def)
  then show ?case using Cons.IH[OF rest] by simp
qed

lemma map_filter_skipped:
  "\<forall>st\<in>set raw. should_skip_step st \<Longrightarrow>
     List.map_filter (\<lambda>(i, st). normalize_step st job_nm i wfn) (enumerate idx raw) = []"
proof (induction raw arbitrary: idx)
  case Nil
  then show ?case by (simp add: List.map_filter_simps)
next
  case (Cons st raw)
  then have sk: "normalize_step st job_nm idx wfn = None" by (simp add: normalize_step_def)
  show ?case using Cons sk by (simp add: List.map_filter_simps)
qed

lemma retained_steps_skipped:
  "\<forall>st\<in>set raw. should_skip_step st \<Longrightarrow> retained_steps job_nm wfn raw = []"
  by (simp add: retained_steps_def map_filter_skipped)

lemma normalize_step_original:
  "normalize_step st job_nm idx wfn = Some s \<Longrightarrow>
     \<not> should_skip_step st \<and> meta_original_step (step_meta s) = st"
  by (cases "should_skip_step st") (auto simp: normalize_step_def Let_def)

lemma map_filter_not_skipped:
  "s \<in> set (List.map_filter (\<lambda>(i, st). normalize_step st job_nm i wfn) (enumerate idx raw))
     \<Longrightarrow> \<not> should_skip_step (meta_original_step (step_meta s))"
proof (induction raw arbitrary: idx)
  case Nil
  then show ?case by (simp add: List.map_filter_simps)
next
  case (Cons st raw)
  show ?case
  proof (cases "normalize_step st job_nm idx wfn")
    case None
    with Cons.prems have "s \<in> set (List.map_filter (\<lambda>(i, st). normalize_step st job_nm i wfn)
                                     (enumerate (Suc idx) raw))"
      by (simp add: List.map_filter_simps)
    then show ?thesis by (rule Cons.IH)
  next
    case (Some s')
    with Cons.prems have "s = s' \<or> s \<in> set (List.map_filter (\<lambda>(i, st). normalize_step st job_nm i wfn)
                                     (enumerate (Suc idx) raw))"
      by (simp add: List.map_filter_simps)
    then show ?thesis
    proof
      assume "s = s'"
      then show ?thesis using normalize_step_original[OF Some] by simp
    next
      assume "s \<in> set (List.map_filter (\<lambda>(i, st). normalize_step st job_nm i wfn)
                                     (enumerate (Suc idx) raw))"
      then show ?thesis by (rule Cons.IH)
    qed
  qed
qed

lemma retained_steps_not_skipped:
  "s \<in> set (retained_steps job_nm wfn raw) \<Longrightarrow>
     \<not> should_skip_step (meta_original_step (step_meta s))"
  unfolding retained_steps_def by (rule map_filter_not_skipped)

lemma jobs_loop_step:
  "jobs_loop wfn ((job_nm, body) # rest) (jobs_out, wf_jobs_legacy) =
     jobs_loop wfn rest
       ((if retained_steps job_nm wfn (raw_steps_of body) \<noteq> []
         then jobs_out @ [\<lparr>job_name = job_nm, workflow_name = Some wfn,
                            steps = retained_steps job_nm wfn (raw_steps_of body)\<rparr>]
         else jobs_out),
        (if fst (steps_loop job_nm wfn (case jb_env body of None \<Rightarrow> [] | Some e \<Rightarrow> e) 0
                   (raw_steps_of body) ([], [])) \<noteq> []
         then wf_jobs_legacy @
                [\<lparr>lg_job_id = job_nm,
                  lg_steps = fst (steps_loop job_nm wfn (case jb_env body of None \<Rightarrow> [] | Some e \<Rightarrow> e) 0
                                    (raw_steps_of body) ([], []))\<rparr>]
         else wf_jobs_legacy))"
proof -
  obtain l n where sl: "steps_loop job_nm wfn (case jb_env body of None \<Rightarrow> [] | Some e \<Rightarrow> e)
                          0 (raw_steps_of body) ([], []) = (l, n)"
    by (cases "steps_loop job_nm wfn (case jb_env body of None \<Rightarrow> [] | Some e \<Rightarrow> e)
                          0 (raw_steps_of body) ([], [])")
  have n: "n = retained_steps job_nm wfn (raw_steps_of body)"
    using steps_loop_norm[of job_nm wfn "case jb_env body of None \<Rightarrow> [] | Some e \<Rightarrow> e"
                             0 "raw_steps_of body" "[]" "[]"] sl
    by (simp add: retained_steps_def)
  show ?thesis
    using sl n by (simp add: Let_def raw_steps_of_def[symmetric])
qed

lemma jobs_loop_jobs:
  "fst (jobs_loop wfn jobs_dict (jobs_out, wf_jobs_legacy)) = jobs_out @ jobs_of wfn jobs_dict"
proof (induction jobs_dict arbitrary: jobs_out wf_jobs_legacy)
  case Nil
  then show ?case by (simp add: jobs_of_def)
next
  case (Cons jb rest)
  obtain job_nm body where jb: "jb = (job_nm, body)" by (cases jb)
  show ?case
    unfolding jb jobs_loop_step
    by (simp add: Cons.IH jobs_of_def)
qed








text \<open>
  The loop over the files: a file that is read adds its jobs and lets the loop go on, a
  file that is read as a workflow without jobs changes nothing, and a file whose
  reading raises makes the loop raise wherever it stands in the list.
\<close>

lemma workflows_loop_step_all:
  assumes "read_source fs path = Inr wf_data"
  shows "\<exists>workflows_out'. \<forall>rest.
           workflows_loop fs (path # rest) (jobs_out, workflows_out) =
             workflows_loop fs rest (jobs_out @ source_jobs fs path, workflows_out')"
proof -
  let ?wfn = "case wf_name wf_data of None \<Rightarrow> basename path | Some n \<Rightarrow> n"
  let ?jd = "case wf_jobs wf_data of None \<Rightarrow> [] | Some js \<Rightarrow> js"
  obtain jo lg where jl: "jobs_loop ?wfn ?jd (jobs_out, []) = (jo, lg)"
    by (cases "jobs_loop ?wfn ?jd (jobs_out, [])")
  have jo: "jo = jobs_out @ source_jobs fs path"
    using jobs_loop_jobs[of ?wfn ?jd jobs_out "[]"] jl assms by (simp add: source_jobs_def)
  have "\<forall>rest. workflows_loop fs (path # rest) (jobs_out, workflows_out) =
          workflows_loop fs rest
            (jo, if lg \<noteq> [] then workflows_out @ [\<lparr>lg_workflow_file = basename path, lg_jobs = lg\<rparr>]
                 else workflows_out)"
    using assms jl by (simp add: Let_def)
  then show ?thesis unfolding jo by blast
qed

lemma workflows_loop_step:
  assumes "read_source fs path = Inr wf_data"
  shows "\<exists>workflows_out'.
           workflows_loop fs (path # rest) (jobs_out, workflows_out) =
             workflows_loop fs rest (jobs_out @ source_jobs fs path, workflows_out')"
  using workflows_loop_step_all[OF assms, of jobs_out workflows_out] by blast




lemma workflows_loop_jobs_from:
  assumes "workflows_loop fs paths (jobs_out, workflows_out) = Inr (jobs_out', workflows_out')"
    and "j \<in> set jobs_out'"
  shows "j \<in> set jobs_out \<or> (\<exists>w jd. j \<in> set (jobs_of w jd))"
  using assms
proof (induction paths arbitrary: jobs_out workflows_out)
  case Nil
  then show ?case by simp
next
  case (Cons p rest)
  show ?case
  proof (cases "read_source fs p")
    case (Inl e)
    then show ?thesis using Cons.prems(1) by simp
  next
    case (Inr wf_data)
    from workflows_loop_step[OF Inr, of rest jobs_out workflows_out]
    obtain wo where "workflows_loop fs (p # rest) (jobs_out, workflows_out) =
             workflows_loop fs rest (jobs_out @ source_jobs fs p, wo)" by blast
    with Cons.prems(1) have "workflows_loop fs rest (jobs_out @ source_jobs fs p, wo) =
             Inr (jobs_out', workflows_out')" by simp
    from Cons.IH[OF this Cons.prems(2)]
    have "j \<in> set (jobs_out @ source_jobs fs p) \<or> (\<exists>w jd. j \<in> set (jobs_of w jd))" .
    then show ?thesis using Inr by (auto simp: source_jobs_def)
  qed
qed


lemma build_ci_plan_jobs_from:
  assumes "build_ci_plan fs root = Inr pl" and "j \<in> set (plan_jobs pl)"
  shows "\<exists>w jd. j \<in> set (jobs_of w jd)"
proof (cases "workflows_loop fs (collect_workflow_files fs root) ([], [])")
  case (Inl e)
  then show ?thesis using assms(1) by (simp add: build_ci_plan_def)
next
  case (Inr r)
  obtain jo wo where r: "r = (jo, wo)" by (cases r)
  have "plan_jobs pl = jo" using assms(1) Inr r by (auto simp: build_ci_plan_def plan_jobs_def)
  with assms(2) have "j \<in> set jo" by simp
  from workflows_loop_jobs_from[OF Inr[unfolded r] this] show ?thesis by simp
qed

lemma contains_nonempty: "contains kw u \<Longrightarrow> kw \<noteq> [] \<Longrightarrow> u \<noteq> []"
  by (cases u) auto

lemma skip_keywords_nonempty: "kw \<in> set SKIP_KEYWORDS \<Longrightarrow> kw \<noteq> []"
  by (auto simp: SKIP_KEYWORDS_def)

text \<open>
  Claim C7. A source step whose action reference contains one of the known no-op
  actions (checkout, setup-python, setup-node, cache) is excluded by the normalizer,
  in particular when it has no run command; a job all of whose steps are excluded adds
  nothing to the plan (the iteration of the job loop leaves both accumulators as they
  were); and in every plan that \<open>build_ci_plan\<close> returns, no job is without steps and
  every step comes from a source step that is not to be skipped.
\<close>

theorem noop_steps_and_empty_jobs_excluded:
  "(rs_uses st = Some u \<and> kw \<in> set SKIP_KEYWORDS \<and> contains kw u
      \<longrightarrow> should_skip_step st \<and> normalize_step st job_nm idx wfn = None)
   \<and> ((\<forall>st\<in>set (raw_steps_of body). should_skip_step st)
      \<longrightarrow> jobs_loop wfn ((job_nm, body) # rest) acc = jobs_loop wfn rest acc)
   \<and> (build_ci_plan fs root = Inr pl
      \<longrightarrow> (\<forall>j\<in>set (plan_jobs pl). steps j \<noteq> []
             \<and> (\<forall>s\<in>set (steps j). \<not> should_skip_step (meta_original_step (step_meta s)))))"
proof (intro conjI impI)
  assume a: "rs_uses st = Some u \<and> kw \<in> set SKIP_KEYWORDS \<and> contains kw u"
  then have "u \<noteq> []" using contains_nonempty skip_keywords_nonempty by blast
  moreover have "list_ex (\<lambda>bad. contains bad u) SKIP_KEYWORDS"
    using a by (auto simp: list_ex_iff)
  ultimately show sk: "should_skip_step st"
    using a by (simp add: should_skip_step_def truthy_def or_empty_def)
  then show "normalize_step st job_nm idx wfn = None" by (simp add: normalize_step_def)
next
  assume a: "\<forall>st\<in>set (raw_steps_of body). should_skip_step st"
  obtain jobs_out wf_jobs_legacy where acc: "acc = (jobs_out, wf_jobs_legacy)" by (cases acc)
  show "jobs_loop wfn ((job_nm, body) # rest) acc = jobs_loop wfn rest acc"
    unfolding acc jobs_loop_step
    by (simp add: retained_steps_skipped[OF a] steps_loop_legacy_skipped[OF a])
next
  assume b: "build_ci_plan fs root = Inr pl"
  show "\<forall>j\<in>set (plan_jobs pl). steps j \<noteq> []
             \<and> (\<forall>s\<in>set (steps j). \<not> should_skip_step (meta_original_step (step_meta s)))"
  proof
    fix j assume "j \<in> set (plan_jobs pl)"
    from build_ci_plan_jobs_from[OF b this] obtain w jd where "j \<in> set (jobs_of w jd)" by blast
    then obtain jn bd where j: "j = \<lparr>job_name = jn, workflow_name = Some w,
                                     steps = retained_steps jn w (raw_steps_of bd)\<rparr>"
      and ne: "retained_steps jn w (raw_steps_of bd) \<noteq> []"
      by (auto simp: jobs_of_def)
    show "steps j \<noteq> []
             \<and> (\<forall>s\<in>set (steps j). \<not> should_skip_step (meta_original_step (step_meta s)))"
      using ne retained_steps_not_skipped by (auto simp: j)
  qed
qed

text \<open>
  The theorem at a workflow with the job \<open>prepare\<close> (a checkout and a Python setup)
  and the job \<open>qa\<close> (a checkout and a test run): the plan has the job \<open>qa\<close> only.
\<close>

theorem noop_steps_and_empty_jobs_excluded_witness:
  "normalize_step \<lparr>rs_name = None, rs_run = None, rs_uses = Some ''actions/checkout@v4'',
                   rs_env = None\<rparr> ''prepare'' 0 ''CI'' = None
   \<and> jobs_loop ''CI'' [(''prepare'', setup_only_body)] ([], []) = ([], [])
   \<and> map job_name (plan_jobs (projr (build_ci_plan setup_fs ''repo''))) = [''qa'']
   \<and> [] \<notin> set (map steps (plan_jobs (projr (build_ci_plan setup_fs ''repo''))))"
proof -
  let ?st = "\<lparr>rs_name = None, rs_run = None, rs_uses = Some ''actions/checkout@v4'',
              rs_env = None\<rparr>"
  let ?pl = "projr (build_ci_plan setup_fs ''repo'')"
  have h1: "rs_uses ?st = Some ''actions/checkout@v4'' \<and> ''actions/checkout'' \<in> set SKIP_KEYWORDS
              \<and> contains ''actions/checkout'' ''actions/checkout@v4''"
    by (simp add: SKIP_KEYWORDS_def)
  have h2: "\<forall>st\<in>set (raw_steps_of setup_only_body). should_skip_step st"
    by code_simp
  have h3: "build_ci_plan setup_fs ''repo'' = Inr ?pl"
    by code_simp
  have names: "map job_name (plan_jobs ?pl) = [''qa'']"
    by code_simp
  from noop_steps_and_empty_jobs_excluded[of ?st "''actions/checkout@v4''" "''actions/checkout''"
         "''prepare''" 0 "''CI''" setup_only_body "[]" "([], [])" setup_fs "''repo''" ?pl]
    h1 h2 h3
  have a: "normalize_step ?st ''prepare'' 0 ''CI'' = None"
    and b: "jobs_loop ''CI'' [(''prepare'', setup_only_body)] ([], []) = jobs_loop ''CI'' [] ([], [])"
    and c: "\<forall>j\<in>set (plan_jobs ?pl). steps j \<noteq> []"
    by blast+
  from c have d: "[] \<notin> set (map steps (plan_jobs ?pl))" by auto
  show ?thesis using a b d names by simp
qed

text \<open>
  \<open>_collect_workflow_files\<close> derives the second pattern from the first by replacing
  \<open>.yml\<close> wherever it occurs, in the root as well: under a root named \<open>x.yml\<close> the
  \<open>.yaml\<close> files of the workflow directory are not collected.
\<close>

lemma yaml_sources_missed_under_dotted_root:
  "collect_workflow_files dotted_root_fs ''x.yml'' = [''x.yml/.github/workflows/a.yml'']"
  by code_simp

text \<open>
  Claim C8. The claim is that the jobs of the plan follow the lexicographic order of
  the names of the source files. \<open>_collect_workflow_files\<close> sorts the \<open>.yml\<close> files and
  the \<open>.yaml\<close> files apart and puts the second list after the first: with the sources
  \<open>a.yaml\<close> and \<open>b.yml\<close> the job of \<open>b.yml\<close> comes first in the plan, although
  \<open>a.yaml\<close> is the smaller name and the smaller path.
\<close>

theorem yaml_sources_follow_yml_sources:
  "map_sum id (map workflow_name \<circ> plan_jobs) (build_ci_plan mixed_fs ''repo'')
     = Inr [Some ''b.yml'', Some ''a.yaml'']
   \<and> ''a.yaml'' < ''b.yml''
   \<and> ''repo/.github/workflows/a.yaml'' < ''repo/.github/workflows/b.yml''"
  by code_simp




end
